theory Spec2Isabelle
  imports Main "HOL-Library.Word"
begin

unbundle bit_operations_syntax

section \<open>Data model of tcp\_probe\_plus (jprobe.c)\<close>

type_synonym u8 = "8 word"
type_synonym u16 = "16 word"
type_synonym u32 = "32 word"
type_synonym u64 = "64 word"

text \<open>
  \<^verbatim>\<open>ktime_t\<close> is a signed 64-bit count of nanoseconds read from the monotonic clock.
  Readings stay far below \<open>2^63\<close>, so a reading and a difference of two readings are
  modelled as \<open>int\<close>.
\<close>

type_synonym ktime_t = int

text \<open>The flow identity \<^verbatim>\<open>struct tcp_tuple\<close>; ports are kept in network byte order.\<close>

record tcp_tuple =
  saddr :: u32
  daddr :: u32
  sport :: u16
  dport :: u16

text \<open>The address fields of \<^verbatim>\<open>struct inet_sock\<close> that the handlers copy into the tuple.\<close>

record inet_sock =
  inet_saddr :: u32
  inet_daddr :: u32
  inet_sport :: u16
  inet_dport :: u16

text \<open>
  The protocol-state snapshot: the fields of \<^verbatim>\<open>struct tcp_sock\<close> and
  \<^verbatim>\<open>struct sock\<close> that \<^verbatim>\<open>write_flow\<close> and the handlers read
  (\<^verbatim>\<open>tp = tcp_sk(sk)\<close> is the same object as \<^verbatim>\<open>sk\<close>). The value of the kernel's
  \<^verbatim>\<open>tcp_current_ssthresh(sk)\<close> is part of the snapshot.
\<close>

record sock =
  snd_nxt :: u32
  snd_una :: u32
  snd_cwnd :: u32
  snd_wnd :: u32
  srtt_us :: u32
  rttvar_us :: u32
  lost_out :: u32
  total_retrans :: u32
  packets_out :: u32
  frto :: u8
  rcv_nxt :: u32
  copied_seq :: u32
  write_seq :: u32
  sk_state :: u8
  sk_ack_backlog :: u32
  sk_max_ack_backlog :: u32
  tcp_current_ssthresh :: u32

text \<open>
  One slot of the ring, \<^verbatim>\<open>struct tcp_log\<close>: exactly the fields that
  \<^verbatim>\<open>write_flow\<close> assigns through \<^verbatim>\<open>p\<close>.
\<close>

record tcp_log =
  p_tstamp :: ktime_t
  p_saddr :: u32
  p_sport :: u16
  p_daddr :: u32
  p_dport :: u16
  p_length :: u16
  p_snd_nxt :: u64
  p_snd_una :: u32
  p_snd_cwnd :: u32
  p_snd_wnd :: u32
  p_ssthresh :: u32
  p_srtt :: u32
  p_rttvar :: u32
  p_lost :: u32
  p_retrans :: u32
  p_inflight :: u32
  p_rto :: u32
  p_frto_counter :: u8
  p_rqueue :: u32
  p_wqueue :: u32
  p_socket_idf :: u64

text \<open>
  The per-flow state \<^verbatim>\<open>struct tcp_hash_flow\<close> (without its list linkage):
  \<^verbatim>\<open>last_seq_num\<close> is 32 bits wide and \<^verbatim>\<open>cumulative_bytes\<close> 64 bits wide.
\<close>

record tcp_hash_flow =
  tuple :: tcp_tuple
  tstamp :: ktime_t
  cumulative_bytes :: u64
  last_seq_num :: u32
  first_seq_num :: u64

text \<open>
  The ring \<^verbatim>\<open>struct tcp_probe_list tcp_probe\<close>: the array \<^verbatim>\<open>log\<close> of
  \<^verbatim>\<open>bufsize\<close> slots, the producer index \<^verbatim>\<open>head\<close>, the consumer index
  \<^verbatim>\<open>tail\<close> and the congestion window of the last call of \<^verbatim>\<open>write_flow\<close>.
\<close>

record tcp_probe_list =
  log :: "tcp_log list"
  head :: nat
  tail :: nat
  lastcwnd :: u32

text \<open>
  The counters that \<^verbatim>\<open>TCPPROBE_STAT_INC\<close> increments in jprobe.c. The per-CPU banks
  are summed on read; the model keeps the sum.
\<close>

record tcpprobe_stat =
  ack_drop_purge :: nat
  ack_drop_ring_full :: nat
  conn_maxflow_limit :: nat
  reset_flows :: nat

text \<open>
  The module parameters (declared in tcp\_probe\_plus.h), taken as they are after
  \<^verbatim>\<open>tcpprobe_init\<close>: the port filter, full-capture mode, the minimum sample interval in
  milliseconds, the bound on tracked flows and the ring capacity, all non-negative.
\<close>

record config =
  port :: nat
  full :: bool
  probetime :: nat
  maxflows :: nat
  bufsize :: nat

text \<open>
  The module's globals. \<^verbatim>\<open>flows\<close> stands for the hash table \<^verbatim>\<open>tcp_hash\<close> together
  with the list \<^verbatim>\<open>tcp_flow_list\<close>: both hold the same flows, found by tuple equality.
  \<^verbatim>\<open>tcp_hash_lock\<close> is \<open>True\<close> while another context (the purge timer) holds the table
  lock.
\<close>

record globals =
  tcp_probe :: tcp_probe_list
  flows :: "tcp_tuple \<rightharpoonup> tcp_hash_flow"
  flow_count :: nat
  stat :: tcpprobe_stat
  tcp_hash_lock :: bool

text \<open>What a handler receives from the probed kernel function, and the clock reading it takes.\<close>

record event =
  inet :: inet_sock
  sk :: sock
  skb_len :: u32
  ktime_get :: ktime_t

section \<open>Constants and kernel primitives\<close>

definition UINT32_MAX :: u32 where
  "UINT32_MAX = 0xFFFFFFFF"

definition UINT16_MAX :: u16 where
  "UINT16_MAX = 0xFFFF"

definition TCP_LISTEN :: u8 where
  "TCP_LISTEN = 10"

definition NSEC_PER_SEC :: int where
  "NSEC_PER_SEC = 1000000000"

definition NSEC_PER_MSEC :: int where
  "NSEC_PER_MSEC = 1000000"

definition MSEC_PER_SEC :: int where
  "MSEC_PER_SEC = 1000"

text \<open>\<^verbatim>\<open>ntohs\<close> on a little-endian host: the two bytes are swapped.\<close>

definition ntohs :: "u16 \<Rightarrow> u16" where
  "ntohs x = (push_bit 8 x) OR (drop_bit 8 x)"

text \<open>\<^verbatim>\<open>div_s64_rem\<close>: the quotient truncated towards zero, and the remainder.\<close>

definition div_s64_rem :: "int \<Rightarrow> int \<Rightarrow> int \<times> int" where
  "div_s64_rem a b =
     (let q = sgn a * sgn b * (\<bar>a\<bar> div \<bar>b\<bar>) in (q, a - q * b))"

text \<open>\<^verbatim>\<open>ns_to_timespec\<close> (jprobe.c, lines 60-76): seconds and nanoseconds.\<close>

definition ns_to_timespec :: "int \<Rightarrow> int \<times> int" where
  "ns_to_timespec nsec =
     (if nsec = 0 then (0, 0)
      else
        (let (tv_sec, remainder) = div_s64_rem nsec NSEC_PER_SEC
         in if remainder < 0 then (tv_sec - 1, remainder + NSEC_PER_SEC)
            else (tv_sec, remainder)))"

text \<open>
  Lines 380-381: the time since the flow's stored timestamp in milliseconds, converted to
  an unsigned 64-bit value.
\<close>

definition milliseconds :: "ktime_t \<Rightarrow> ktime_t \<Rightarrow> u64" where
  "milliseconds now earlier =
     (let (tv_sec, tv_nsec) = ns_to_timespec (now - earlier)
      in word_of_int (tv_sec * MSEC_PER_SEC + tv_nsec div NSEC_PER_MSEC))"

text \<open>
  \<^verbatim>\<open>spin_trylock\<close> returns 0 when the lock is held and takes it otherwise.
  \<^verbatim>\<open>spin_lock\<close> busy-waits while the lock is held: no other context runs inside a
  handler of this model, so on a held lock it does not return (\<open>None\<close>).
\<close>

definition spin_trylock :: "bool \<Rightarrow> nat" where
  "spin_trylock held = (if held then 0 else 1)"

definition spin_lock :: "bool \<Rightarrow> unit option" where
  "spin_lock held = (if held then None else Some ())"

section \<open>Helpers of tcp\_probe\_plus.h\<close>

text \<open>
  Modelled from the spec: \<^verbatim>\<open>tcp_probe_avail\<close> is declared in tcp\_probe\_plus.h, which
  is not among the sources. The spec defines "slots available" as \<open>C - (head - tail)\<close>
  for a ring of capacity \<open>C\<close>; both indices are kept below \<open>C\<close>, so their difference
  is taken modulo \<open>C\<close>.
\<close>

definition tcp_probe_avail :: "config \<Rightarrow> tcp_probe_list \<Rightarrow> int" where
  "tcp_probe_avail cfg p =
     int (bufsize cfg) - ((int (head p) - int (tail p)) mod int (bufsize cfg))"

text \<open>
  Modelled from the spec: \<^verbatim>\<open>tcp_flow_find\<close> is not among the sources. The spec's
  \<open>lookup(identity) -> FlowState?\<close> finds the flow whose identity equals the tuple.
\<close>

definition tcp_flow_find :: "globals \<Rightarrow> tcp_tuple \<Rightarrow> tcp_hash_flow option" where
  "tcp_flow_find s t = flows s t"

text \<open>
  Modelled from the spec: \<^verbatim>\<open>init_tcp_hash_flow\<close> is not among the sources. The spec's
  \<open>create(identity)\<close> makes a flow state with the identity and the creation timestamp
  and a reset cumulative counter (the sequence numbers start at zero as well), puts it into
  the table and counts it in the global flow counter.
\<close>

definition new_tcp_hash_flow :: "tcp_tuple \<Rightarrow> ktime_t \<Rightarrow> tcp_hash_flow" where
  "new_tcp_hash_flow t ts =
     \<lparr>tuple = t, tstamp = ts, cumulative_bytes = 0, last_seq_num = 0, first_seq_num = 0\<rparr>"

definition init_tcp_hash_flow :: "tcp_tuple \<Rightarrow> ktime_t \<Rightarrow> globals \<Rightarrow> tcp_hash_flow \<times> globals" where
  "init_tcp_hash_flow t ts s =
     (new_tcp_hash_flow t ts,
      s\<lparr>flows := (flows s)(t \<mapsto> new_tcp_hash_flow t ts), flow_count := flow_count s + 1\<rparr>)"

text \<open>
  Modelled from the spec: \<^verbatim>\<open>hlist_del\<close>, \<^verbatim>\<open>list_del\<close> and
  \<^verbatim>\<open>tcp_hash_flow_free\<close> together are the spec's \<open>remove(identity)\<close>: the flow leaves
  the table and the flow counter.
\<close>

definition tcp_hash_flow_free :: "tcp_tuple \<Rightarrow> globals \<Rightarrow> globals" where
  "tcp_hash_flow_free t s = s\<lparr>flows := (flows s)(t := None), flow_count := flow_count s - 1\<rparr>"

text \<open>
  A store through the pointer \<^verbatim>\<open>tcp_flow\<close>, which points at the table's entry for
  the tuple that was looked up.
\<close>

definition store_flow :: "tcp_tuple \<Rightarrow> tcp_hash_flow \<Rightarrow> globals \<Rightarrow> globals" where
  "store_flow t f s = s\<lparr>flows := (flows s)(t \<mapsto> f)\<rparr>"

section \<open>write\_flow\<close>

text \<open>
  Lines 154-196: the record assembled in the slot \<^verbatim>\<open>p\<close>, with the field names of
  kernels from 3.10 on (\<^verbatim>\<open>srtt_us\<close>, \<^verbatim>\<open>rttvar_us\<close>, \<^verbatim>\<open>frto\<close>).
\<close>

definition flow_record ::
  "tcp_tuple \<Rightarrow> sock \<Rightarrow> ktime_t \<Rightarrow> u64 \<Rightarrow> u16 \<Rightarrow> u32 \<Rightarrow> sock \<Rightarrow> u64 \<Rightarrow> tcp_log" where
  "flow_record t tp ts cumulative length_v ssthresh sk_v first_seq_seen =
     \<lparr>p_tstamp = ts,
      p_saddr = saddr t,
      p_sport = sport t,
      p_daddr = daddr t,
      p_dport = dport t,
      p_length = length_v,
      p_snd_nxt = cumulative,
      p_snd_una = snd_una tp,
      p_snd_cwnd = snd_cwnd tp,
      p_snd_wnd = snd_wnd tp,
      p_ssthresh = ssthresh,
      p_srtt = drop_bit 3 (srtt_us tp),
      p_rttvar = drop_bit 3 (rttvar_us tp),
      p_lost = lost_out tp,
      p_retrans = total_retrans tp,
      p_inflight = packets_out tp,
      p_rto = drop_bit 3 (srtt_us tp) + 4 * drop_bit 3 (rttvar_us tp),
      p_frto_counter = frto tp,
      p_rqueue =
        (if sk_state sk_v = TCP_LISTEN then sk_ack_backlog sk_v
         else if 0 < sint (rcv_nxt tp - copied_seq tp) then rcv_nxt tp - copied_seq tp else 0),
      p_wqueue =
        (if sk_state sk_v = TCP_LISTEN then sk_max_ack_backlog sk_v
         else write_seq tp - snd_una tp),
      p_socket_idf = first_seq_seen\<rparr>"

text \<open>
  Lines 144-204. With more than one slot available the record is stored at \<^verbatim>\<open>head\<close> and
  \<^verbatim>\<open>head\<close> advances under the mask \<^verbatim>\<open>bufsize - 1\<close>; otherwise the record is dropped
  and counted. In both cases \<^verbatim>\<open>lastcwnd\<close> is overwritten. The callers hold
  \<^verbatim>\<open>tcp_probe.lock\<close> around the call, for the time of this one push; the push is one step
  of the model.
\<close>

definition write_flow ::
  "config \<Rightarrow> tcp_tuple \<Rightarrow> sock \<Rightarrow> ktime_t \<Rightarrow> u64 \<Rightarrow> u16 \<Rightarrow> u32 \<Rightarrow> sock \<Rightarrow> u64 \<Rightarrow> globals \<Rightarrow> globals" where
  "write_flow cfg t tp ts cumulative length_v ssthresh sk_v first_seq_seen s =
     (let s1 =
        (if 1 < tcp_probe_avail cfg (tcp_probe s)
         then s\<lparr>tcp_probe := (tcp_probe s)
                 \<lparr>log := (log (tcp_probe s))
                     [head (tcp_probe s) :=
                        flow_record t tp ts cumulative length_v ssthresh sk_v first_seq_seen],
                  head := (head (tcp_probe s) + 1) AND (bufsize cfg - 1)\<rparr>\<rparr>
         else s\<lparr>stat := (stat s)\<lparr>ack_drop_ring_full := ack_drop_ring_full (stat s) + 1\<rparr>\<rparr>)
      in s1\<lparr>tcp_probe := (tcp_probe s1)\<lparr>lastcwnd := snd_cwnd tp\<rparr>\<rparr>)"

section \<open>The handlers\<close>

text \<open>
  Lines 272-279 of \<^verbatim>\<open>jtcp_done\<close> and lines 388-395 of \<^verbatim>\<open>jtcp_rcv_established\<close>
  (the same statements): the cumulative-byte update. The differences are computed on
  32-bit values and added to the 64-bit counter.
\<close>

definition update_cumulative_bytes :: "u32 \<Rightarrow> tcp_hash_flow \<Rightarrow> tcp_hash_flow" where
  "update_cumulative_bytes nxt f =
     (let f1 =
        (if last_seq_num f < nxt
         then f\<lparr>cumulative_bytes := cumulative_bytes f + ucast (nxt - last_seq_num f)\<rparr>
         else if nxt \<noteq> last_seq_num f
         then f\<lparr>cumulative_bytes :=
                  cumulative_bytes f + ucast ((UINT32_MAX - last_seq_num f) + nxt)\<rparr>
         else f)
      in f1\<lparr>last_seq_num := nxt\<rparr>)"

text \<open>Lines 233-243 and 332-342: the tuple of the socket. Lines 245-248 and 344-346: the port
  filter.\<close>

definition inet_tuple :: "inet_sock \<Rightarrow> tcp_tuple" where
  "inet_tuple i =
     \<lparr>saddr = inet_saddr i, daddr = inet_daddr i, sport = inet_sport i, dport = inet_dport i\<rparr>"

definition port_matches :: "config \<Rightarrow> tcp_tuple \<Rightarrow> bool" where
  "port_matches cfg t \<longleftrightarrow>
     port cfg = 0 \<or> unat (ntohs (dport t)) = port cfg \<or> unat (ntohs (sport t)) = port cfg"

text \<open>
  Lines 387-406: the body of \<^verbatim>\<open>if (should_write_flow)\<close>, on the flow that
  \<^verbatim>\<open>tcp_flow\<close> points to.
\<close>

definition write_tracked :: "config \<Rightarrow> event \<Rightarrow> tcp_hash_flow \<Rightarrow> globals \<Rightarrow> globals" where
  "write_tracked cfg ev f s =
     (let f' = update_cumulative_bytes (snd_nxt (sk ev)) f
      in write_flow cfg (inet_tuple (inet ev)) (sk ev) (ktime_get ev) (cumulative_bytes f')
           (ucast (skb_len ev)) (tcp_current_ssthresh (sk ev)) (sk ev) (first_seq_num f')
           (store_flow (inet_tuple (inet ev)) f' s))"

text \<open>
  Lines 311-412. \<^verbatim>\<open>hash_tcp_flow\<close> only selects the bucket that \<^verbatim>\<open>tcp_flow_find\<close>
  searches, and \<^verbatim>\<open>wake_up\<close> only signals the reader: neither changes the state. The
  table lock that the handler takes is released before it returns.
\<close>

definition jtcp_rcv_established :: "config \<Rightarrow> event \<Rightarrow> globals \<Rightarrow> globals" where
  "jtcp_rcv_established cfg ev s =
     (let t = inet_tuple (inet ev); tp = sk ev; now = ktime_get ev in
      if port_matches cfg t \<and> (full cfg \<or> snd_cwnd tp \<noteq> lastcwnd (tcp_probe s))
      then
        if spin_trylock (tcp_hash_lock s) = 0
        then s\<lparr>stat := (stat s)\<lparr>ack_drop_purge := ack_drop_purge (stat s) + 1\<rparr>\<rparr>
        else
          (case tcp_flow_find s t of
             None \<Rightarrow>
               if 0 < maxflows cfg \<and> maxflows cfg \<le> flow_count s
               then s\<lparr>stat := (stat s)\<lparr>conn_maxflow_limit := conn_maxflow_limit (stat s) + 1\<rparr>\<rparr>
               else
                 (let (f, s1) = init_tcp_hash_flow t now s
                  in write_tracked cfg ev
                       (f\<lparr>first_seq_num := ucast (snd_nxt tp), tstamp := now\<rparr>) s1)
           | Some f \<Rightarrow>
               if probetime cfg \<le> unat (milliseconds now (tstamp f))
               then write_tracked cfg ev (f\<lparr>tstamp := now\<rparr>) s
               else s)
      else s)"

text \<open>
  Lines 214-305. The table lock is taken with \<^verbatim>\<open>spin_lock\<close>, so the handler has no
  result while the lock is held. The flow is updated through \<^verbatim>\<open>tcp_flow\<close> before it is
  unlinked and freed.
\<close>

definition jtcp_done :: "config \<Rightarrow> event \<Rightarrow> globals \<Rightarrow> globals option" where
  "jtcp_done cfg ev s =
     (let t = inet_tuple (inet ev); tp = sk ev; now = ktime_get ev in
      if port_matches cfg t
      then
        (case spin_lock (tcp_hash_lock s) of
           None \<Rightarrow> None
         | Some _ \<Rightarrow>
             (case tcp_flow_find s t of
                None \<Rightarrow> Some s
              | Some f \<Rightarrow>
                  (let f' = update_cumulative_bytes (snd_nxt tp) f;
                       s1 = store_flow t f' s;
                       s2 = s1\<lparr>stat := (stat s1)\<lparr>reset_flows := reset_flows (stat s1) + 1\<rparr>\<rparr>;
                       s3 = write_flow cfg t tp now (cumulative_bytes f') UINT16_MAX
                              (tcp_current_ssthresh tp) tp (first_seq_num f') s2
                   in Some (tcp_hash_flow_free t s3))))
      else Some s)"

section \<open>Sequences of pushes and the ring's contents\<close>

text \<open>The arguments of one call of \<^verbatim>\<open>write_flow\<close>.\<close>

record write_args =
  w_tuple :: tcp_tuple
  w_tp :: sock
  w_tstamp :: ktime_t
  w_cumulative_bytes :: u64
  w_length :: u16
  w_ssthresh :: u32
  w_first_seq_seen :: u64

definition push :: "config \<Rightarrow> globals \<Rightarrow> write_args \<Rightarrow> globals" where
  "push cfg s a =
     write_flow cfg (w_tuple a) (w_tp a) (w_tstamp a) (w_cumulative_bytes a) (w_length a)
       (w_ssthresh a) (w_tp a) (w_first_seq_seen a) s"

definition pushed_record :: "write_args \<Rightarrow> tcp_log" where
  "pushed_record a =
     flow_record (w_tuple a) (w_tp a) (w_tstamp a) (w_cumulative_bytes a) (w_length a)
       (w_ssthresh a) (w_tp a) (w_first_seq_seen a)"

text \<open>A sequence of pushes with no drain in between.\<close>

definition pushes :: "config \<Rightarrow> globals \<Rightarrow> write_args list \<Rightarrow> globals" where
  "pushes cfg s ws = foldl (push cfg) s ws"

text \<open>
  Modelled from the spec: the consumer is not among the sources. The spec's
  \<open>readAvailable()\<close> drains from \<^verbatim>\<open>tail\<close>: the records retained in the ring are the
  slots from \<^verbatim>\<open>tail\<close> up to \<^verbatim>\<open>head\<close>, in that order, wrapping at the capacity.
\<close>

definition tcp_probe_used :: "config \<Rightarrow> tcp_probe_list \<Rightarrow> nat" where
  "tcp_probe_used cfg p = nat ((int (head p) - int (tail p)) mod int (bufsize cfg))"

definition retained :: "config \<Rightarrow> tcp_probe_list \<Rightarrow> tcp_log list" where
  "retained cfg p =
     map (\<lambda>i. log p ! ((tail p + i) mod bufsize cfg)) [0..<tcp_probe_used cfg p]"

text \<open>
  The ring as \<^verbatim>\<open>tcpprobe_init\<close> leaves it: \<^verbatim>\<open>bufsize\<close> is a power of two
  (\<^verbatim>\<open>roundup_pow_of_two\<close>), the array has \<^verbatim>\<open>bufsize\<close> slots and both indices are
  inside it.
\<close>

definition ring_ok :: "config \<Rightarrow> tcp_probe_list \<Rightarrow> bool" where
  "ring_ok cfg p \<longleftrightarrow>
     (\<exists>k < 64. bufsize cfg = 2 ^ k) \<and> length (log p) = bufsize cfg \<and>
     head p < bufsize cfg \<and> tail p < bufsize cfg"

text \<open>
  The cumulative-byte update applied for a sequence of observed sequence numbers, as a
  flow's life is a sequence of such updates.
\<close>

definition observe_all :: "u32 list \<Rightarrow> tcp_hash_flow \<Rightarrow> tcp_hash_flow" where
  "observe_all ns f = foldl (\<lambda>g n. update_cumulative_bytes n g) f ns"

section \<open>Concrete configurations, events and states\<close>

definition ex_cfg :: config where
  "ex_cfg = \<lparr>port = 8080, full = False, probetime = 10, maxflows = 0, bufsize = 4\<rparr>"

definition ex_inet1 :: inet_sock where
  "ex_inet1 =
     \<lparr>inet_saddr = 0x0A000001, inet_daddr = 0x0A000002, inet_sport = 0x5000, inet_dport = 0x901F\<rparr>"

definition ex_inet2 :: inet_sock where
  "ex_inet2 =
     \<lparr>inet_saddr = 0x0A000003, inet_daddr = 0x0A000002, inet_sport = 0x5100, inet_dport = 0x901F\<rparr>"

definition ex_sock :: "u32 \<Rightarrow> u32 \<Rightarrow> sock" where
  "ex_sock nxt cwnd =
     \<lparr>snd_nxt = nxt, snd_una = 0, snd_cwnd = cwnd, snd_wnd = 65535, srtt_us = 8000,
      rttvar_us = 4000, lost_out = 0, total_retrans = 0, packets_out = 0, frto = 0,
      rcv_nxt = 0, copied_seq = 0, write_seq = 0, sk_state = 1, sk_ack_backlog = 0,
      sk_max_ack_backlog = 0, tcp_current_ssthresh = 20\<rparr>"

definition ex_event :: "inet_sock \<Rightarrow> u32 \<Rightarrow> u32 \<Rightarrow> ktime_t \<Rightarrow> event" where
  "ex_event i nxt cwnd now = \<lparr>inet = i, sk = ex_sock nxt cwnd, skb_len = 1000, ktime_get = now\<rparr>"

definition ex_slot :: tcp_log where
  "ex_slot = flow_record (inet_tuple ex_inet2) (ex_sock 0 0) 0 0 0 0 (ex_sock 0 0) 0"

definition ex_ring :: tcp_probe_list where
  "ex_ring = \<lparr>log = [ex_slot, ex_slot, ex_slot, ex_slot], head = 0, tail = 0, lastcwnd = 0\<rparr>"

definition ex_stat :: tcpprobe_stat where
  "ex_stat = \<lparr>ack_drop_purge = 0, ack_drop_ring_full = 0, conn_maxflow_limit = 0, reset_flows = 0\<rparr>"

text \<open>A state with no flow and an empty ring, and the same state with the table lock held.\<close>

definition ex_empty :: globals where
  "ex_empty =
     \<lparr>tcp_probe = ex_ring, flows = Map.empty, flow_count = 0, stat = ex_stat,
      tcp_hash_lock = False\<rparr>"

text \<open>A state that tracks one flow, observed last at time 0.\<close>

definition ex_flow :: "u64 \<Rightarrow> u32 \<Rightarrow> tcp_hash_flow" where
  "ex_flow cum lastseq =
     \<lparr>tuple = inet_tuple ex_inet1, tstamp = 0, cumulative_bytes = cum, last_seq_num = lastseq,
      first_seq_num = 100\<rparr>"

definition ex_tracking :: "u64 \<Rightarrow> u32 \<Rightarrow> globals" where
  "ex_tracking cum lastseq =
     ex_empty\<lparr>flows := [inet_tuple ex_inet1 \<mapsto> ex_flow cum lastseq], flow_count := 1\<rparr>"

text \<open>A ring of four slots that holds three records: one slot is left.\<close>

definition ex_full_ring :: tcp_probe_list where
  "ex_full_ring = ex_ring\<lparr>head := 3\<rparr>"

text \<open>
  The state after the first observation of the first flow, at time 0 with sequence number
  100 and congestion window 10, into the empty state.
\<close>

definition ex_created :: globals where
  "ex_created = jtcp_rcv_established ex_cfg (ex_event ex_inet1 100 10 0) ex_empty"

definition ex_write :: "u64 \<Rightarrow> write_args" where
  "ex_write n =
     \<lparr>w_tuple = inet_tuple ex_inet1, w_tp = ex_sock 0 10, w_tstamp = 0, w_cumulative_bytes = n,
      w_length = 1000, w_ssthresh = 20, w_first_seq_seen = 100\<rparr>"

section \<open>Effects of write\_flow\<close>

lemma flows_write_flow [simp]:
  "flows (write_flow cfg t tp ts c l ss sk_v fs s) = flows s"
  by (simp add: write_flow_def Let_def)

lemma flow_count_write_flow [simp]:
  "flow_count (write_flow cfg t tp ts c l ss sk_v fs s) = flow_count s"
  by (simp add: write_flow_def Let_def)

lemma tcp_hash_lock_write_flow [simp]:
  "tcp_hash_lock (write_flow cfg t tp ts c l ss sk_v fs s) = tcp_hash_lock s"
  by (simp add: write_flow_def Let_def)

lemma lastcwnd_write_flow [simp]:
  "lastcwnd (tcp_probe (write_flow cfg t tp ts c l ss sk_v fs s)) = snd_cwnd tp"
  by (simp add: write_flow_def Let_def)

lemma tcp_probe_write_flow:
  "tcp_probe (write_flow cfg t tp ts c l ss sk_v fs s) =
     (if 1 < tcp_probe_avail cfg (tcp_probe s)
      then (tcp_probe s)\<lparr>log := (log (tcp_probe s))
                              [head (tcp_probe s) := flow_record t tp ts c l ss sk_v fs],
                         head := (head (tcp_probe s) + 1) AND (bufsize cfg - 1),
                         lastcwnd := snd_cwnd tp\<rparr>
      else (tcp_probe s)\<lparr>lastcwnd := snd_cwnd tp\<rparr>)"
  by (simp add: write_flow_def Let_def)

lemma stat_write_flow:
  "stat (write_flow cfg t tp ts c l ss sk_v fs s) =
     (if 1 < tcp_probe_avail cfg (tcp_probe s) then stat s
      else (stat s)\<lparr>ack_drop_ring_full := ack_drop_ring_full (stat s) + 1\<rparr>)"
  by (simp add: write_flow_def Let_def)

lemma stat_fields_write_flow [simp]:
  "conn_maxflow_limit (stat (write_flow cfg t tp ts c l ss sk_v fs s)) = conn_maxflow_limit (stat s)"
  "ack_drop_purge (stat (write_flow cfg t tp ts c l ss sk_v fs s)) = ack_drop_purge (stat s)"
  "reset_flows (stat (write_flow cfg t tp ts c l ss sk_v fs s)) = reset_flows (stat s)"
  by (simp_all add: stat_write_flow)

lemma write_flow_dropped:
  assumes "\<not> 1 < tcp_probe_avail cfg (tcp_probe s)"
  shows "tcp_probe (write_flow cfg t tp ts c l ss sk_v fs s) = (tcp_probe s)\<lparr>lastcwnd := snd_cwnd tp\<rparr>"
    and "ack_drop_ring_full (stat (write_flow cfg t tp ts c l ss sk_v fs s))
           = ack_drop_ring_full (stat s) + 1"
  using assms by (simp_all add: tcp_probe_write_flow stat_write_flow)

lemma flow_record_simps [simp]:
  "p_length (flow_record t tp ts c l ss sk_v fs) = l"
  "p_snd_nxt (flow_record t tp ts c l ss sk_v fs) = c"
  "p_snd_cwnd (flow_record t tp ts c l ss sk_v fs) = snd_cwnd tp"
  "p_socket_idf (flow_record t tp ts c l ss sk_v fs) = fs"
  "p_tstamp (flow_record t tp ts c l ss sk_v fs) = ts"
  by (simp_all add: flow_record_def)

section \<open>The cumulative-byte update\<close>

lemma first_seq_num_update [simp]:
  "first_seq_num (update_cumulative_bytes nxt f) = first_seq_num f"
  by (simp add: update_cumulative_bytes_def Let_def)

lemma last_seq_num_update [simp]:
  "last_seq_num (update_cumulative_bytes nxt f) = nxt"
  by (simp add: update_cumulative_bytes_def Let_def)

lemma tstamp_update [simp]:
  "tstamp (update_cumulative_bytes nxt f) = tstamp f"
  by (simp add: update_cumulative_bytes_def Let_def)

lemma update_tstamp_commute:
  "update_cumulative_bytes nxt (f\<lparr>tstamp := ts\<rparr>) = (update_cumulative_bytes nxt f)\<lparr>tstamp := ts\<rparr>"
  by (simp add: update_cumulative_bytes_def Let_def)

lemma cumulative_bytes_tstamp [simp]:
  "cumulative_bytes (update_cumulative_bytes nxt (f\<lparr>tstamp := ts\<rparr>))
     = cumulative_bytes (update_cumulative_bytes nxt f)"
  by (simp add: update_tstamp_commute)

lemma fresh_update:
  "update_cumulative_bytes nxt ((new_tcp_hash_flow t ts)\<lparr>first_seq_num := x, tstamp := now\<rparr>)
   = \<lparr>tuple = t, tstamp = now, cumulative_bytes = ucast nxt, last_seq_num = nxt, first_seq_num = x\<rparr>"
  by (auto simp: update_cumulative_bytes_def new_tcp_hash_flow_def Let_def word_neq_0_conv not_less)

lemma update_cumulative_bytes_mono:
  assumes "unat (cumulative_bytes f) + 2 ^ 32 \<le> 2 ^ 64"
  shows "cumulative_bytes f \<le> cumulative_bytes (update_cumulative_bytes nxt f)"
proof -
  have step: "cumulative_bytes f \<le> cumulative_bytes f + ucast d" for d :: u32
  proof -
    have "uint (ucast d :: u64) = uint d" by (rule uint_up_ucast) (simp add: is_up)
    then have "unat (ucast d :: u64) = unat d" by (simp only: unat_eq_nat_uint)
    moreover have "unat d < 2 ^ 32" using unsigned_less [of d, where 'a = nat] by simp
    ultimately have "unat (cumulative_bytes f) + unat (ucast d :: u64) < 2 ^ 64"
      using assms by simp
    then show ?thesis by (simp add: no_olen_add_nat)
  qed
  show ?thesis
    by (simp add: update_cumulative_bytes_def Let_def step)
qed

section \<open>Reaching the end of the 64-bit counter\<close>

text \<open>
  One round of the observations \<open>0xFFFFFFFF, 0\<close> on a flow whose sequence number is 0 adds
  \<open>2^32 - 1\<close> to the counter and returns to sequence number 0; \<open>2^32 + 1\<close> rounds take a
  fresh flow to \<open>2^64 - 1\<close>.
\<close>

lemma wrap_round:
  assumes "last_seq_num f = 0"
  shows "update_cumulative_bytes 0 (update_cumulative_bytes 0xFFFFFFFF f)
           = f\<lparr>cumulative_bytes := cumulative_bytes f + 0xFFFFFFFF\<rparr>"
  using assms by (simp add: update_cumulative_bytes_def UINT32_MAX_def)

lemma wrap_rounds:
  assumes "last_seq_num f = 0"
  shows "observe_all (concat (replicate k [0xFFFFFFFF, 0])) f
           = f\<lparr>cumulative_bytes := cumulative_bytes f + of_nat k * 0xFFFFFFFF\<rparr>"
  using assms
proof (induction k arbitrary: f)
  case 0
  then show ?case by (simp add: observe_all_def)
next
  case (Suc k)
  have "observe_all (concat (replicate (Suc k) [0xFFFFFFFF, 0])) f
      = observe_all (concat (replicate k [0xFFFFFFFF, 0]))
          (update_cumulative_bytes 0 (update_cumulative_bytes 0xFFFFFFFF f))"
    by (simp add: observe_all_def)
  also have "\<dots> = observe_all (concat (replicate k [0xFFFFFFFF, 0]))
          (f\<lparr>cumulative_bytes := cumulative_bytes f + 0xFFFFFFFF\<rparr>)"
    using Suc.prems by (simp only: wrap_round)
  also have "\<dots> = (f\<lparr>cumulative_bytes := cumulative_bytes f + 0xFFFFFFFF\<rparr>)
      \<lparr>cumulative_bytes := cumulative_bytes (f\<lparr>cumulative_bytes := cumulative_bytes f + 0xFFFFFFFF\<rparr>)
           + of_nat k * 0xFFFFFFFF\<rparr>"
    using Suc.prems by (intro Suc.IH) simp
  finally show ?case by (simp add: algebra_simps)
qed

lemma wrap_reachable:
  "cumulative_bytes (observe_all (concat (replicate 4294967297 [0xFFFFFFFF, 0]))
      (new_tcp_hash_flow t ts)) = 0xFFFFFFFFFFFFFFFF \<and>
   cumulative_bytes (update_cumulative_bytes 1
      (observe_all (concat (replicate 4294967297 [0xFFFFFFFF, 0])) (new_tcp_hash_flow t ts))) = 0"
proof -
  have "last_seq_num (new_tcp_hash_flow t ts) = 0" by (simp add: new_tcp_hash_flow_def)
  then have "observe_all (concat (replicate 4294967297 [0xFFFFFFFF, 0])) (new_tcp_hash_flow t ts)
      = (new_tcp_hash_flow t ts)\<lparr>cumulative_bytes :=
           cumulative_bytes (new_tcp_hash_flow t ts) + of_nat 4294967297 * 0xFFFFFFFF\<rparr>"
    by (rule wrap_rounds)
  then show ?thesis
    by (simp add: new_tcp_hash_flow_def update_cumulative_bytes_def)
qed

section \<open>The elapsed time in milliseconds\<close>

text \<open>
  For a clock reading that is not earlier than the flow's timestamp, \<^verbatim>\<open>ns_to_timespec\<close> is
  division with remainder, and the milliseconds are the nanoseconds divided by \<open>10^6\<close>.
\<close>

lemma ns_to_timespec_nonneg:
  assumes "0 \<le> d"
  shows "ns_to_timespec d = (d div 1000000000, d mod 1000000000)"
proof (cases "d = 0")
  case True
  then show ?thesis by (simp add: ns_to_timespec_def)
next
  case False
  with assms have "0 < d" by simp
  then have "div_s64_rem d NSEC_PER_SEC = (d div 1000000000, d mod 1000000000)"
    by (simp add: div_s64_rem_def NSEC_PER_SEC_def Let_def minus_mult_div_eq_mod algebra_simps)
  then show ?thesis
    using False by (simp add: ns_to_timespec_def)
qed

lemma ms_split:
  fixes d :: int
  shows "d div 1000000000 * 1000 + d mod 1000000000 div 1000000 = d div 1000000"
proof -
  have "d div 1000000 = (d div 1000000000 * 1000 * 1000000 + d mod 1000000000) div 1000000"
    by simp
  also have "\<dots> = d div 1000000000 * 1000 + d mod 1000000000 div 1000000"
    by (rule div_mult_self3) simp
  finally show ?thesis by (rule sym)
qed

lemma milliseconds_nonneg:
  assumes "earlier \<le> now"
  shows "milliseconds now earlier = word_of_int ((now - earlier) div 1000000)"
proof -
  have "0 \<le> now - earlier" using assms by simp
  then have "ns_to_timespec (now - earlier)
      = ((now - earlier) div 1000000000, (now - earlier) mod 1000000000)"
    by (rule ns_to_timespec_nonneg)
  then have "milliseconds now earlier
      = word_of_int ((now - earlier) div 1000000000 * 1000
                     + (now - earlier) mod 1000000000 div 1000000)"
    by (simp only: milliseconds_def Let_def prod.case MSEC_PER_SEC_def NSEC_PER_MSEC_def)
  then show ?thesis by (simp only: ms_split)
qed

lemma milliseconds_less:
  assumes "earlier \<le> now" "now - earlier < int T * NSEC_PER_MSEC"
  shows "unat (milliseconds now earlier) < T"
proof -
  define q where "q = (now - earlier) div 1000000"
  define r where "r = (now - earlier) mod 1000000"
  have q0: "0 \<le> q" using assms(1) by (simp add: q_def)
  have "now - earlier = q * 1000000 + r" by (simp add: q_def r_def)
  moreover have "0 \<le> r" by (simp add: r_def)
  moreover have "now - earlier < int T * 1000000" using assms(2) by (simp add: NSEC_PER_MSEC_def)
  ultimately have qT: "q < int T" by linarith
  have "uint (word_of_int q :: u64) \<le> q"
    unfolding uint_word_of_int using q0 by (rule zmod_le_nonneg_dividend)
  then have "unat (word_of_int q :: u64) \<le> nat q"
    by (simp only: unat_eq_nat_uint nat_mono)
  also have "nat q < T" using q0 qT by simp
  finally show ?thesis by (simp only: milliseconds_nonneg [OF assms(1)] q_def)
qed

section \<open>The observation handler, case by case\<close>

lemma rcv_gate_closed:
  "\<not> (port_matches cfg (inet_tuple (inet ev)) \<and> (full cfg \<or> snd_cwnd (sk ev) \<noteq> lastcwnd (tcp_probe s)))
   \<Longrightarrow> jtcp_rcv_established cfg ev s = s"
  unfolding jtcp_rcv_established_def Let_def by (simp only: if_False)

lemma rcv_locked:
  "port_matches cfg (inet_tuple (inet ev)) \<Longrightarrow> full cfg \<or> snd_cwnd (sk ev) \<noteq> lastcwnd (tcp_probe s)
   \<Longrightarrow> tcp_hash_lock s
   \<Longrightarrow> jtcp_rcv_established cfg ev s = s\<lparr>stat := (stat s)\<lparr>ack_drop_purge := ack_drop_purge (stat s) + 1\<rparr>\<rparr>"
  by (simp add: jtcp_rcv_established_def Let_def spin_trylock_def)

lemma rcv_rejected:
  "port_matches cfg (inet_tuple (inet ev)) \<Longrightarrow> full cfg \<or> snd_cwnd (sk ev) \<noteq> lastcwnd (tcp_probe s)
   \<Longrightarrow> \<not> tcp_hash_lock s \<Longrightarrow> flows s (inet_tuple (inet ev)) = None
   \<Longrightarrow> 0 < maxflows cfg \<Longrightarrow> maxflows cfg \<le> flow_count s
   \<Longrightarrow> jtcp_rcv_established cfg ev s
       = s\<lparr>stat := (stat s)\<lparr>conn_maxflow_limit := conn_maxflow_limit (stat s) + 1\<rparr>\<rparr>"
  by (simp add: jtcp_rcv_established_def Let_def spin_trylock_def tcp_flow_find_def)

lemma rcv_created:
  "port_matches cfg (inet_tuple (inet ev)) \<Longrightarrow> full cfg \<or> snd_cwnd (sk ev) \<noteq> lastcwnd (tcp_probe s)
   \<Longrightarrow> \<not> tcp_hash_lock s \<Longrightarrow> flows s (inet_tuple (inet ev)) = None
   \<Longrightarrow> \<not> (0 < maxflows cfg \<and> maxflows cfg \<le> flow_count s)
   \<Longrightarrow> jtcp_rcv_established cfg ev s
       = write_flow cfg (inet_tuple (inet ev)) (sk ev) (ktime_get ev) (ucast (snd_nxt (sk ev)))
           (ucast (skb_len ev)) (tcp_current_ssthresh (sk ev)) (sk ev) (ucast (snd_nxt (sk ev)))
           (s\<lparr>flows := (flows s)(inet_tuple (inet ev) \<mapsto>
                  \<lparr>tuple = inet_tuple (inet ev), tstamp = ktime_get ev,
                   cumulative_bytes = ucast (snd_nxt (sk ev)), last_seq_num = snd_nxt (sk ev),
                   first_seq_num = ucast (snd_nxt (sk ev))\<rparr>),
               flow_count := flow_count s + 1\<rparr>)"
  unfolding jtcp_rcv_established_def Let_def
  by (auto simp: spin_trylock_def tcp_flow_find_def
      init_tcp_hash_flow_def write_tracked_def fresh_update store_flow_def Let_def
      intro!: arg_cong [where f = "write_flow _ _ _ _ _ _ _ _ _"])

lemma rcv_tracked:
  "port_matches cfg (inet_tuple (inet ev)) \<Longrightarrow> full cfg \<or> snd_cwnd (sk ev) \<noteq> lastcwnd (tcp_probe s)
   \<Longrightarrow> \<not> tcp_hash_lock s \<Longrightarrow> flows s (inet_tuple (inet ev)) = Some f
   \<Longrightarrow> jtcp_rcv_established cfg ev s
       = (if probetime cfg \<le> unat (milliseconds (ktime_get ev) (tstamp f))
          then write_tracked cfg ev (f\<lparr>tstamp := ktime_get ev\<rparr>) s else s)"
  by (simp add: jtcp_rcv_established_def Let_def spin_trylock_def tcp_flow_find_def)

lemma flows_write_tracked:
  "flows (write_tracked cfg ev f s)
     = (flows s)(inet_tuple (inet ev) \<mapsto> update_cumulative_bytes (snd_nxt (sk ev)) f)"
  by (simp add: write_tracked_def Let_def store_flow_def)

lemma rcv_written:
  "port_matches cfg (inet_tuple (inet ev)) \<Longrightarrow> full cfg \<or> snd_cwnd (sk ev) \<noteq> lastcwnd (tcp_probe s)
   \<Longrightarrow> \<not> tcp_hash_lock s \<Longrightarrow> flows s (inet_tuple (inet ev)) = Some f
   \<Longrightarrow> probetime cfg \<le> unat (milliseconds (ktime_get ev) (tstamp f))
   \<Longrightarrow> jtcp_rcv_established cfg ev s
       = write_flow cfg (inet_tuple (inet ev)) (sk ev) (ktime_get ev)
           (cumulative_bytes (update_cumulative_bytes (snd_nxt (sk ev)) f))
           (ucast (skb_len ev)) (tcp_current_ssthresh (sk ev)) (sk ev) (first_seq_num f)
           (s\<lparr>flows := (flows s)(inet_tuple (inet ev) \<mapsto>
                  (update_cumulative_bytes (snd_nxt (sk ev)) f)\<lparr>tstamp := ktime_get ev\<rparr>)\<rparr>)"
  by (simp add: rcv_tracked write_tracked_def Let_def store_flow_def update_tstamp_commute)

lemma rcv_not_written:
  "port_matches cfg (inet_tuple (inet ev)) \<Longrightarrow> full cfg \<or> snd_cwnd (sk ev) \<noteq> lastcwnd (tcp_probe s)
   \<Longrightarrow> \<not> tcp_hash_lock s \<Longrightarrow> flows s (inet_tuple (inet ev)) = Some f
   \<Longrightarrow> \<not> probetime cfg \<le> unat (milliseconds (ktime_get ev) (tstamp f))
   \<Longrightarrow> jtcp_rcv_established cfg ev s = s"
  by (simp add: rcv_tracked)

lemma rcv_flows_cases:
  "flows (jtcp_rcv_established cfg ev s) k = flows s k \<or>
   (\<exists>f. flows s k = Some f \<and>
        flows (jtcp_rcv_established cfg ev s) k
          = Some (update_cumulative_bytes (snd_nxt (sk ev)) (f\<lparr>tstamp := ktime_get ev\<rparr>))) \<or>
   flows s k = None"
  unfolding jtcp_rcv_established_def Let_def
  by (auto simp: flows_write_tracked init_tcp_hash_flow_def tcp_flow_find_def
      split: option.splits)

section \<open>The close handler, case by case\<close>

lemma done_filtered:
  "\<not> port_matches cfg (inet_tuple (inet ev)) \<Longrightarrow> jtcp_done cfg ev s = Some s"
  by (simp add: jtcp_done_def Let_def)

lemma done_locked:
  "port_matches cfg (inet_tuple (inet ev)) \<Longrightarrow> tcp_hash_lock s \<Longrightarrow> jtcp_done cfg ev s = None"
  by (simp add: jtcp_done_def Let_def spin_lock_def)

lemma done_absent:
  "port_matches cfg (inet_tuple (inet ev)) \<Longrightarrow> \<not> tcp_hash_lock s
   \<Longrightarrow> flows s (inet_tuple (inet ev)) = None \<Longrightarrow> jtcp_done cfg ev s = Some s"
  by (simp add: jtcp_done_def Let_def spin_lock_def tcp_flow_find_def)

lemma done_tracked:
  "port_matches cfg (inet_tuple (inet ev)) \<Longrightarrow> \<not> tcp_hash_lock s
   \<Longrightarrow> flows s (inet_tuple (inet ev)) = Some f
   \<Longrightarrow> jtcp_done cfg ev s
       = Some ((write_flow cfg (inet_tuple (inet ev)) (sk ev) (ktime_get ev)
                  (cumulative_bytes (update_cumulative_bytes (snd_nxt (sk ev)) f)) UINT16_MAX
                  (tcp_current_ssthresh (sk ev)) (sk ev) (first_seq_num f)
                  (s\<lparr>stat := (stat s)\<lparr>reset_flows := reset_flows (stat s) + 1\<rparr>\<rparr>))
               \<lparr>flows := (flows s)(inet_tuple (inet ev) := None),
                flow_count := flow_count s - 1\<rparr>)"
  unfolding jtcp_done_def Let_def
  by (simp add: spin_lock_def tcp_flow_find_def store_flow_def tcp_hash_flow_free_def)
    (rule globals.equality; simp add: tcp_probe_write_flow stat_write_flow)

lemma done_flows_cases:
  "jtcp_done cfg ev s = Some s' \<Longrightarrow> flows s' k = flows s k \<or> flows s' k = None"
  unfolding jtcp_done_def Let_def
  by (auto simp: tcp_hash_flow_free_def store_flow_def tcp_flow_find_def spin_lock_def
      split: option.splits if_splits)

section \<open>The ring under a sequence of pushes\<close>

text \<open>
  The records retained are an abstraction of the ring: a push that is stored appends its
  record to them, a push that is refused leaves them as they are.
\<close>

lemma mask_nat: "(x::nat) AND (2 ^ k - 1) = x mod 2 ^ k"
proof -
  have "x AND (2 ^ k - 1) = x AND mask k" by (simp only: mask_eq_exp_minus_1)
  also have "\<dots> = take_bit k x" by (simp only: take_bit_eq_mask)
  also have "\<dots> = x mod 2 ^ k" by (simp only: take_bit_eq_mod)
  finally show ?thesis .
qed

lemma mask_nat_Suc: "(x::nat) AND (2 ^ k - Suc 0) = x mod 2 ^ k"
  using mask_nat [of x k] by simp

lemma used_offset:
  assumes "u < C" "t < C" "h = (t + u) mod C"
  shows "nat ((int h - int t) mod int C) = u"
proof -
  have "(int h - int t) mod int C = (int ((t + u) mod C) - int t) mod int C"
    using assms by simp
  also have "\<dots> = ((int t + int u) mod int C - int t) mod int C"
    by (simp add: zmod_int)
  also have "\<dots> = (int t + int u - int t) mod int C"
    by (rule mod_diff_left_eq)
  also have "\<dots> = int u" using assms by simp
  finally show ?thesis by simp
qed

lemma offset_used:
  assumes "h < C" "t < C"
  shows "h = (t + nat ((int h - int t) mod int C)) mod C"
proof -
  have C: "0 < int C" using assms by simp
  have "int ((t + nat ((int h - int t) mod int C)) mod C)
      = (int t + (int h - int t) mod int C) mod int C"
    using C by (simp add: zmod_int)
  also have "\<dots> = (int t + (int h - int t)) mod int C"
    by (rule mod_add_right_eq)
  also have "\<dots> = int h" using assms by simp
  finally show ?thesis by simp
qed

lemma slots_distinct:
  assumes "i < u" "u < C"
  shows "(t + i) mod C \<noteq> (t + u) mod (C::nat)"
proof
  assume "(t + i) mod C = (t + u) mod C"
  then have "(t + u) mod C = (t + i) mod C" by simp
  moreover have "t + i \<le> t + u" using assms by simp
  ultimately have "C dvd (t + u) - (t + i)" by (simp only: mod_eq_dvd_iff_nat)
  then have "C dvd u - i" by simp
  moreover have "0 < u - i" "u - i < C" using assms by simp_all
  ultimately show False by (auto dest: dvd_imp_le)
qed

lemma used_less: "ring_ok cfg p \<Longrightarrow> tcp_probe_used cfg p < bufsize cfg"
  by (auto simp: ring_ok_def tcp_probe_used_def nat_less_iff)

lemma avail_used:
  "ring_ok cfg p \<Longrightarrow> tcp_probe_avail cfg p = int (bufsize cfg) - int (tcp_probe_used cfg p)"
  by (auto simp: ring_ok_def tcp_probe_avail_def tcp_probe_used_def)

lemma length_retained [simp]: "length (retained cfg p) = tcp_probe_used cfg p"
  by (simp add: retained_def)

lemma push_store:
  assumes ok: "ring_ok cfg (tcp_probe s)" and room: "tcp_probe_used cfg (tcp_probe s) + 1 < bufsize cfg"
  shows "tcp_probe (push cfg s a) =
           (tcp_probe s)\<lparr>log := (log (tcp_probe s))[head (tcp_probe s) := pushed_record a],
                          head := (head (tcp_probe s) + 1) mod bufsize cfg,
                          lastcwnd := snd_cwnd (w_tp a)\<rparr>"
    and "stat (push cfg s a) = stat s"
proof -
  obtain k where k: "bufsize cfg = 2 ^ k" using ok by (auto simp: ring_ok_def)
  have av: "1 < tcp_probe_avail cfg (tcp_probe s)"
    using room by (simp add: avail_used [OF ok])
  show "tcp_probe (push cfg s a) =
           (tcp_probe s)\<lparr>log := (log (tcp_probe s))[head (tcp_probe s) := pushed_record a],
                          head := (head (tcp_probe s) + 1) mod bufsize cfg,
                          lastcwnd := snd_cwnd (w_tp a)\<rparr>"
    using av by (simp add: push_def write_flow_def pushed_record_def k mask_nat_Suc)
  show "stat (push cfg s a) = stat s"
    using av by (simp add: push_def write_flow_def)
qed

lemma push_drop:
  assumes ok: "ring_ok cfg (tcp_probe s)" and full: "\<not> tcp_probe_used cfg (tcp_probe s) + 1 < bufsize cfg"
  shows "tcp_probe (push cfg s a) = (tcp_probe s)\<lparr>lastcwnd := snd_cwnd (w_tp a)\<rparr>"
    and "stat (push cfg s a) = (stat s)\<lparr>ack_drop_ring_full := ack_drop_ring_full (stat s) + 1\<rparr>"
proof -
  have av: "\<not> 1 < tcp_probe_avail cfg (tcp_probe s)"
    using full by (simp add: avail_used [OF ok])
  show "tcp_probe (push cfg s a) = (tcp_probe s)\<lparr>lastcwnd := snd_cwnd (w_tp a)\<rparr>"
    using av by (simp add: push_def write_flow_def)
  show "stat (push cfg s a) = (stat s)\<lparr>ack_drop_ring_full := ack_drop_ring_full (stat s) + 1\<rparr>"
    using av by (simp add: push_def write_flow_def)
qed

lemma retained_lastcwnd [simp]: "retained cfg (p\<lparr>lastcwnd := c\<rparr>) = retained cfg p"
  by (simp add: retained_def tcp_probe_used_def)

lemma used_lastcwnd [simp]: "tcp_probe_used cfg (p\<lparr>lastcwnd := c\<rparr>) = tcp_probe_used cfg p"
  by (simp add: tcp_probe_used_def)

lemma ring_ok_lastcwnd [simp]: "ring_ok cfg (p\<lparr>lastcwnd := c\<rparr>) = ring_ok cfg p"
  by (simp add: ring_ok_def)

lemma store_step:
  fixes r :: tcp_log
  assumes ok: "ring_ok cfg p" and room: "tcp_probe_used cfg p + 1 < bufsize cfg"
  defines "p' \<equiv> p\<lparr>log := (log p)[head p := r], head := (head p + 1) mod bufsize cfg\<rparr>"
  shows "ring_ok cfg p'"
    and "tcp_probe_used cfg p' = tcp_probe_used cfg p + 1"
    and "retained cfg p' = retained cfg p @ [r]"
proof -
  let ?C = "bufsize cfg" and ?u = "tcp_probe_used cfg p"
  have C: "0 < ?C" and h: "head p < ?C" and t: "tail p < ?C" and len: "length (log p) = ?C"
    using ok by (auto simp: ring_ok_def)
  have hd: "head p = (tail p + ?u) mod ?C"
    unfolding tcp_probe_used_def by (rule offset_used [OF h t])
  show ok': "ring_ok cfg p'"
    using ok C by (simp add: ring_ok_def p'_def)
  have "head p' = (tail p + (?u + 1)) mod ?C"
    using hd by (simp add: p'_def mod_Suc_eq)
  then have "nat ((int (head p') - int (tail p)) mod int ?C) = ?u + 1"
    using room t by (intro used_offset) simp_all
  then show u': "tcp_probe_used cfg p' = ?u + 1"
    by (simp add: tcp_probe_used_def p'_def)
  have old: "log p' ! ((tail p + i) mod ?C) = log p ! ((tail p + i) mod ?C)" if "i < ?u" for i
  proof -
    have "(tail p + i) mod ?C \<noteq> (tail p + ?u) mod ?C"
      using that room by (intro slots_distinct) simp_all
    then show ?thesis using hd by (simp add: p'_def)
  qed
  have new: "log p' ! ((tail p + ?u) mod ?C) = r"
    using hd h len by (simp add: p'_def)
  have "retained cfg p' = map (\<lambda>i. log p' ! ((tail p + i) mod ?C)) [0..<?u + 1]"
    by (simp add: retained_def u') (simp add: p'_def)
  also have "\<dots> = map (\<lambda>i. log p' ! ((tail p + i) mod ?C)) [0..<?u] @ [r]"
    using new by simp
  also have "map (\<lambda>i. log p' ! ((tail p + i) mod ?C)) [0..<?u]
           = map (\<lambda>i. log p ! ((tail p + i) mod ?C)) [0..<?u]"
    using old by simp
  finally show "retained cfg p' = retained cfg p @ [r]"
    by (simp add: retained_def)
qed

lemma write_flow_retained:
  assumes ok: "ring_ok cfg (tcp_probe s)" and room: "1 < tcp_probe_avail cfg (tcp_probe s)"
  shows "retained cfg (tcp_probe (write_flow cfg t tp ts c l ss sk_v fs s))
           = retained cfg (tcp_probe s) @ [flow_record t tp ts c l ss sk_v fs]"
proof -
  obtain k where k: "bufsize cfg = 2 ^ k" using ok by (auto simp: ring_ok_def)
  have u: "tcp_probe_used cfg (tcp_probe s) + 1 < bufsize cfg"
    using room by (simp add: avail_used [OF ok])
  have "tcp_probe (write_flow cfg t tp ts c l ss sk_v fs s)
      = ((tcp_probe s)\<lparr>log := (log (tcp_probe s))
                            [head (tcp_probe s) := flow_record t tp ts c l ss sk_v fs],
                        head := (head (tcp_probe s) + 1) mod bufsize cfg\<rparr>)
          \<lparr>lastcwnd := snd_cwnd tp\<rparr>"
    using room by (simp add: tcp_probe_write_flow k mask_nat_Suc)
  then show ?thesis
    using store_step(3) [OF ok u] by simp
qed

lemma write_flow_ring_ok:
  assumes "ring_ok cfg (tcp_probe s)"
  shows "ring_ok cfg (tcp_probe (write_flow cfg t tp ts c l ss sk_v fs s))"
proof (cases "1 < tcp_probe_avail cfg (tcp_probe s)")
  case True
  obtain k where k: "bufsize cfg = 2 ^ k" using assms by (auto simp: ring_ok_def)
  have u: "tcp_probe_used cfg (tcp_probe s) + 1 < bufsize cfg"
    using True by (simp add: avail_used [OF assms])
  have "tcp_probe (write_flow cfg t tp ts c l ss sk_v fs s)
      = ((tcp_probe s)\<lparr>log := (log (tcp_probe s))
                            [head (tcp_probe s) := flow_record t tp ts c l ss sk_v fs],
                        head := (head (tcp_probe s) + 1) mod bufsize cfg\<rparr>)
          \<lparr>lastcwnd := snd_cwnd tp\<rparr>"
    using True by (simp add: tcp_probe_write_flow k mask_nat_Suc)
  then show ?thesis
    using store_step(1) [OF assms u] by simp
next
  case False
  then show ?thesis using assms by (simp add: tcp_probe_write_flow)
qed

lemma write_flow_avail:
  assumes ok: "ring_ok cfg (tcp_probe s)" and room: "1 < tcp_probe_avail cfg (tcp_probe s)"
  shows "tcp_probe_avail cfg (tcp_probe (write_flow cfg t tp ts c l ss sk_v fs s))
           = tcp_probe_avail cfg (tcp_probe s) - 1"
proof -
  obtain k where k: "bufsize cfg = 2 ^ k" using ok by (auto simp: ring_ok_def)
  have u: "tcp_probe_used cfg (tcp_probe s) + 1 < bufsize cfg"
    using room by (simp add: avail_used [OF ok])
  have "tcp_probe (write_flow cfg t tp ts c l ss sk_v fs s)
      = ((tcp_probe s)\<lparr>log := (log (tcp_probe s))
                            [head (tcp_probe s) := flow_record t tp ts c l ss sk_v fs],
                        head := (head (tcp_probe s) + 1) mod bufsize cfg\<rparr>)
          \<lparr>lastcwnd := snd_cwnd tp\<rparr>"
    using room by (simp add: tcp_probe_write_flow k mask_nat_Suc)
  then have "tcp_probe_used cfg (tcp_probe (write_flow cfg t tp ts c l ss sk_v fs s))
      = tcp_probe_used cfg (tcp_probe s) + 1"
    using store_step(2) [OF ok u] by simp
  then show ?thesis
    using avail_used [OF ok] avail_used [OF write_flow_ring_ok [OF ok]] by simp
qed

lemma pushes_retained:
  assumes "ring_ok cfg (tcp_probe s)"
  shows "ring_ok cfg (tcp_probe (pushes cfg s ws)) \<and>
         tail (tcp_probe (pushes cfg s ws)) = tail (tcp_probe s) \<and>
         retained cfg (tcp_probe (pushes cfg s ws))
           = take (bufsize cfg - 1) (retained cfg (tcp_probe s) @ map pushed_record ws) \<and>
         ack_drop_ring_full (stat (pushes cfg s ws))
           = ack_drop_ring_full (stat s)
             + ((tcp_probe_used cfg (tcp_probe s) + length ws) - (bufsize cfg - 1))"
  using assms
proof (induction ws arbitrary: s)
  case Nil
  then show ?case
    using used_less [of cfg "tcp_probe s"] by (simp add: pushes_def)
next
  case (Cons a ws)
  let ?p = "tcp_probe s" and ?C = "bufsize cfg"
  have step: "pushes cfg s (a # ws) = pushes cfg (push cfg s a) ws"
    by (simp add: pushes_def)
  show ?case
  proof (cases "tcp_probe_used cfg ?p + 1 < ?C")
    case True
    note st = push_store [OF Cons.prems True, of a]
    note ss = store_step [OF Cons.prems True, of "pushed_record a"]
    have p1: "tcp_probe (push cfg s a)
        = (?p\<lparr>log := (log ?p)[head ?p := pushed_record a], head := (head ?p + 1) mod ?C\<rparr>)
            \<lparr>lastcwnd := snd_cwnd (w_tp a)\<rparr>"
      by (simp add: st(1))
    have ok1: "ring_ok cfg (tcp_probe (push cfg s a))"
      unfolding p1 using ss(1) by simp
    have u1: "tcp_probe_used cfg (tcp_probe (push cfg s a)) = tcp_probe_used cfg ?p + 1"
      unfolding p1 using ss(2) by simp
    have r1: "retained cfg (tcp_probe (push cfg s a)) = retained cfg ?p @ [pushed_record a]"
      unfolding p1 using ss(3) by simp
    have t1: "tail (tcp_probe (push cfg s a)) = tail ?p"
      by (simp add: p1)
    show ?thesis
      unfolding step using Cons.IH [OF ok1] by (simp add: u1 r1 t1 st(2))
  next
    case False
    note dr = push_drop [OF Cons.prems False, of a]
    have ok1: "ring_ok cfg (tcp_probe (push cfg s a))"
      using Cons.prems by (simp add: dr(1))
    have u: "tcp_probe_used cfg ?p = ?C - 1"
      using False used_less [OF Cons.prems] by simp
    have len: "length (retained cfg ?p) = ?C - 1"
      using u by simp
    show ?thesis
      unfolding step using Cons.IH [OF ok1] len by (simp add: dr u)
  qed
qed

section \<open>Facts about the concrete inputs\<close>

lemma ex_port1 [simp]: "port_matches ex_cfg (inet_tuple ex_inet1)"
  by (simp add: port_matches_def ex_cfg_def inet_tuple_def ex_inet1_def ntohs_def)

lemma ex_port2 [simp]: "port_matches ex_cfg (inet_tuple ex_inet2)"
  by (simp add: port_matches_def ex_cfg_def inet_tuple_def ex_inet2_def ntohs_def)

lemma ex_tuples_differ [simp]:
  "inet_tuple ex_inet1 \<noteq> inet_tuple ex_inet2"
  "inet_tuple ex_inet2 \<noteq> inet_tuple ex_inet1"
  by (simp_all add: inet_tuple_def ex_inet1_def ex_inet2_def)

lemma ex_ring_ok: "ring_ok ex_cfg ex_ring"
  unfolding ring_ok_def by (intro conjI exI [of _ 2]) (simp_all add: ex_cfg_def ex_ring_def)

lemma ex_ms: "milliseconds 20000000 0 = 20"
  by (simp add: milliseconds_nonneg)

lemma ex_event_simps [simp]:
  "inet (ex_event i nxt cwnd now) = i"
  "ktime_get (ex_event i nxt cwnd now) = now"
  "skb_len (ex_event i nxt cwnd now) = 1000"
  "sk (ex_event i nxt cwnd now) = ex_sock nxt cwnd"
  by (simp_all add: ex_event_def)

lemma ex_sock_simps [simp]:
  "snd_nxt (ex_sock nxt cwnd) = nxt"
  "snd_cwnd (ex_sock nxt cwnd) = cwnd"
  "tcp_current_ssthresh (ex_sock nxt cwnd) = 20"
  by (simp_all add: ex_sock_def)

lemma ex_tracking_simps [simp]:
  "flows (ex_tracking cum lastseq) (inet_tuple ex_inet1) = Some (ex_flow cum lastseq)"
  "flows (ex_tracking cum lastseq) (inet_tuple ex_inet2) = None"
  "tcp_hash_lock (ex_tracking cum lastseq) = False"
  "tcp_probe (ex_tracking cum lastseq) = ex_ring"
  "stat (ex_tracking cum lastseq) = ex_stat"
  "flow_count (ex_tracking cum lastseq) = 1"
  by (simp_all add: ex_tracking_def ex_empty_def)

lemma ex_empty_simps [simp]:
  "flows ex_empty t = None"
  "tcp_hash_lock ex_empty = False"
  "tcp_probe ex_empty = ex_ring"
  "stat ex_empty = ex_stat"
  "flow_count ex_empty = 0"
  by (simp_all add: ex_empty_def)

lemma ex_ring_avail [simp]: "tcp_probe_avail ex_cfg ex_ring = 4"
  by (simp add: tcp_probe_avail_def ex_cfg_def ex_ring_def)

lemma ex_full_ring_avail [simp]: "tcp_probe_avail ex_cfg ex_full_ring = 1"
  by (simp add: tcp_probe_avail_def ex_cfg_def ex_ring_def ex_full_ring_def)

lemma ex_cfg_simps [simp]:
  "port ex_cfg = 8080"
  "full ex_cfg = False"
  "probetime ex_cfg = 10"
  "maxflows ex_cfg = 0"
  "bufsize ex_cfg = 4"
  by (simp_all add: ex_cfg_def)

lemma ex_ring_simps [simp]:
  "lastcwnd ex_ring = 0"
  "head ex_ring = 0"
  "tail ex_ring = 0"
  "lastcwnd ex_full_ring = 0"
  "head ex_full_ring = 3"
  "tail ex_full_ring = 0"
  by (simp_all add: ex_ring_def ex_full_ring_def)

lemma ex_flow_simps [simp]:
  "tuple (ex_flow cum lastseq) = inet_tuple ex_inet1"
  "tstamp (ex_flow cum lastseq) = 0"
  "cumulative_bytes (ex_flow cum lastseq) = cum"
  "last_seq_num (ex_flow cum lastseq) = lastseq"
  "first_seq_num (ex_flow cum lastseq) = 100"
  by (simp_all add: ex_flow_def)

lemma ex_retained_empty [simp]: "retained ex_cfg ex_ring = []"
  by (simp add: retained_def tcp_probe_used_def)

lemma ex_created_eq:
  "ex_created
     = write_flow ex_cfg (inet_tuple ex_inet1) (ex_sock 100 10) 0 100 1000 20 (ex_sock 100 10) 100
         (ex_empty\<lparr>flows := (flows ex_empty)(inet_tuple ex_inet1 \<mapsto>
             \<lparr>tuple = inet_tuple ex_inet1, tstamp = 0, cumulative_bytes = 100,
              last_seq_num = 100, first_seq_num = 100\<rparr>), flow_count := flow_count ex_empty + 1\<rparr>)"
  unfolding ex_created_def
  using rcv_created [of ex_cfg "ex_event ex_inet1 100 10 0" ex_empty] by simp

lemma ex_created_simps [simp]:
  "flows ex_created (inet_tuple ex_inet1) = Some (ex_flow 100 100)"
  "flows ex_created (inet_tuple ex_inet2) = None"
  "tcp_hash_lock ex_created = False"
  "lastcwnd (tcp_probe ex_created) = 10"
  "flow_count ex_created = 1"
  by (simp_all add: ex_created_eq ex_flow_def)

lemma ex_created_ring:
  "ring_ok ex_cfg (tcp_probe ex_created)"
  "tcp_probe_avail ex_cfg (tcp_probe ex_created) = 3"
  "retained ex_cfg (tcp_probe ex_created)
     = [flow_record (inet_tuple ex_inet1) (ex_sock 100 10) 0 100 1000 20 (ex_sock 100 10) 100]"
  unfolding ex_created_eq using ex_ring_ok
  by (simp_all add: write_flow_ring_ok write_flow_avail write_flow_retained)

section \<open>The claims\<close>

text \<open>
  C1. The claim: on every processed observation or close event the counter follows the
  three-case rule with \<open>M = 2^32\<close>; a smaller sequence number adds \<open>(M - last) + new\<close>.
  The code adds \<open>(UINT32_MAX - last) + new\<close>, one byte less. With 5000 bytes counted,
  the stored sequence number 4294967000 and the observed one 704, the distance across the
  wrap is 1000 bytes and the rule gives 6000; the update, the observation handler and the
  terminal record of the close handler all give 5999.
\<close>

theorem C1_wrap_adds_one_less:
  "cumulative_bytes (update_cumulative_bytes 704 (ex_flow 5000 4294967000)) = 5999 \<and>
   flows (jtcp_rcv_established ex_cfg (ex_event ex_inet1 704 10 20000000)
            (ex_tracking 5000 4294967000)) (inet_tuple ex_inet1)
     = Some \<lparr>tuple = inet_tuple ex_inet1, tstamp = 20000000, cumulative_bytes = 5999,
             last_seq_num = 704, first_seq_num = 100\<rparr> \<and>
   map_option (\<lambda>s. map p_snd_nxt (retained ex_cfg (tcp_probe s)))
     (jtcp_done ex_cfg (ex_event ex_inet1 704 10 20000000) (ex_tracking 5000 4294967000))
     = Some [5999]"
proof -
  let ?ev = "ex_event ex_inet1 704 10 20000000" and ?s = "ex_tracking 5000 4294967000"
  let ?f = "ex_flow 5000 4294967000"
  have u: "update_cumulative_bytes 704 ?f = ex_flow 5999 704"
    by (simp add: update_cumulative_bytes_def ex_flow_def UINT32_MAX_def)
  have tr: "flows ?s (inet_tuple (inet ?ev)) = Some ?f" "\<not> tcp_hash_lock ?s"
    "port_matches ex_cfg (inet_tuple (inet ?ev))"
    "full ex_cfg \<or> snd_cwnd (sk ?ev) \<noteq> lastcwnd (tcp_probe ?s)"
    by (simp_all add: ex_ring_def)
  have "jtcp_rcv_established ex_cfg ?ev ?s
      = (if probetime ex_cfg \<le> unat (milliseconds (ktime_get ?ev) (tstamp ?f))
          then write_tracked ex_cfg ?ev (?f\<lparr>tstamp := ktime_get ?ev\<rparr>) ?s else ?s)"
    using tr by (intro rcv_tracked)
  then have a: "flows (jtcp_rcv_established ex_cfg ?ev ?s) (inet_tuple ex_inet1)
      = Some \<lparr>tuple = inet_tuple ex_inet1, tstamp = 20000000, cumulative_bytes = 5999,
             last_seq_num = 704, first_seq_num = 100\<rparr>"
    by (simp add: ex_flow_def ex_ms ex_cfg_def flows_write_tracked
        update_cumulative_bytes_def UINT32_MAX_def)
  have b: "map_option (\<lambda>s. map p_snd_nxt (retained ex_cfg (tcp_probe s))) (jtcp_done ex_cfg ?ev ?s)
      = Some [5999]"
    unfolding done_tracked [OF tr(3) tr(2) tr(1)]
    by (simp add: u tcp_probe_write_flow)
       (simp add: retained_def tcp_probe_used_def ex_ring_def ex_cfg_def flow_record_def ex_flow_def)
  show ?thesis using u a b by (simp add: ex_flow_def)
qed

text \<open>
  C2, counterexample. A tracked flow with sequence number 100 and no bytes counted is
  observed at sequence number 5100, five milliseconds after its timestamp, with a minimum
  interval of ten. The port filter and the window gate pass and the lock is free, but no
  record is due, and the flow keeps \<open>cumulative_bytes = 0\<close> and \<open>last_seq_num = 100\<close>: the
  whole state is unchanged.
\<close>

theorem C2_update_skipped_inside_interval:
  "jtcp_rcv_established ex_cfg (ex_event ex_inet1 5100 10 5000000) (ex_tracking 0 100)
     = ex_tracking 0 100 \<and>
   flows (ex_tracking 0 100) (inet_tuple ex_inet1)
     = Some \<lparr>tuple = inet_tuple ex_inet1, tstamp = 0, cumulative_bytes = 0, last_seq_num = 100,
             first_seq_num = 100\<rparr>"
proof -
  have "milliseconds 5000000 0 = 5" by (simp add: milliseconds_nonneg)
  then have "jtcp_rcv_established ex_cfg (ex_event ex_inet1 5100 10 5000000) (ex_tracking 0 100)
      = ex_tracking 0 100"
    by (intro rcv_not_written [where f = "ex_flow 0 100"])
       simp_all
  then show ?thesis by (simp add: ex_flow_def)
qed

text \<open>
  C2, as amended. For an observation of an already-tracked flow that passes the port filter
  and the window gate with the table lock acquired, the cumulative-byte update and the
  \<^verbatim>\<open>last_seq_num\<close> update are applied exactly when at least \<^verbatim>\<open>probetime\<close> milliseconds
  have passed since the flow's timestamp, which is when the record is handed to
  \<^verbatim>\<open>write_flow\<close>; otherwise the event changes nothing, and the bytes are counted by the next
  observation that is written.
\<close>

theorem C2_update_exactly_when_written:
  assumes "port_matches cfg (inet_tuple (inet ev))"
    and "full cfg \<or> snd_cwnd (sk ev) \<noteq> lastcwnd (tcp_probe s)"
    and "\<not> tcp_hash_lock s"
    and "flows s (inet_tuple (inet ev)) = Some f"
  shows "jtcp_rcv_established cfg ev s =
           (if probetime cfg \<le> unat (milliseconds (ktime_get ev) (tstamp f))
            then write_flow cfg (inet_tuple (inet ev)) (sk ev) (ktime_get ev)
                   (cumulative_bytes (update_cumulative_bytes (snd_nxt (sk ev)) f))
                   (ucast (skb_len ev)) (tcp_current_ssthresh (sk ev)) (sk ev) (first_seq_num f)
                   (s\<lparr>flows := (flows s)(inet_tuple (inet ev) \<mapsto>
                          (update_cumulative_bytes (snd_nxt (sk ev)) f)
                            \<lparr>tstamp := ktime_get ev\<rparr>)\<rparr>)
            else s)"
  using assms by (simp add: rcv_written rcv_not_written)

text \<open>
  The amended C2 at the flow above: nothing changes after 5 ms, and after 50 ms the flow
  holds 5000 bytes and sequence number 5100.
\<close>

theorem C2_update_exactly_when_written_witness:
  "jtcp_rcv_established ex_cfg (ex_event ex_inet1 5100 10 5000000) (ex_tracking 0 100)
     = ex_tracking 0 100 \<and>
   flows (jtcp_rcv_established ex_cfg (ex_event ex_inet1 5100 10 50000000) (ex_tracking 0 100))
       (inet_tuple ex_inet1)
     = Some \<lparr>tuple = inet_tuple ex_inet1, tstamp = 50000000, cumulative_bytes = 5000,
             last_seq_num = 5100, first_seq_num = 100\<rparr>"
proof -
  have ms: "milliseconds 5000000 0 = 5" "milliseconds 50000000 0 = 50"
    by (simp_all add: milliseconds_nonneg)
  have u: "update_cumulative_bytes 5100 (ex_flow 0 100) = ex_flow 5000 5100"
    by (simp add: update_cumulative_bytes_def ex_flow_def)
  have a: "jtcp_rcv_established ex_cfg (ex_event ex_inet1 5100 10 5000000) (ex_tracking 0 100)
      = ex_tracking 0 100"
    using C2_update_exactly_when_written
      [of ex_cfg "ex_event ex_inet1 5100 10 5000000" "ex_tracking 0 100" "ex_flow 0 100"]
    by (simp add: ms)
  have b: "flows (jtcp_rcv_established ex_cfg (ex_event ex_inet1 5100 10 50000000) (ex_tracking 0 100))
       (inet_tuple ex_inet1)
     = Some \<lparr>tuple = inet_tuple ex_inet1, tstamp = 50000000, cumulative_bytes = 5000,
             last_seq_num = 5100, first_seq_num = 100\<rparr>"
    using C2_update_exactly_when_written
      [of ex_cfg "ex_event ex_inet1 5100 10 50000000" "ex_tracking 0 100" "ex_flow 0 100"]
    by (simp add: ms u)
  show ?thesis using a b by simp
qed

text \<open>
  C3, counterexample. The first observation of a flow, at sequence number 100, into an empty
  table and an empty ring: the ring then holds one record for that event.
\<close>

theorem C3_first_observation_is_written:
  "retained ex_cfg (tcp_probe (jtcp_rcv_established ex_cfg (ex_event ex_inet1 100 10 0) ex_empty))
     = [flow_record (inet_tuple ex_inet1) (ex_sock 100 10) 0 100 1000 20 (ex_sock 100 10) 100]"
proof -
  have "jtcp_rcv_established ex_cfg (ex_event ex_inet1 100 10 0) ex_empty
      = write_flow ex_cfg (inet_tuple ex_inet1) (ex_sock 100 10) 0 100 1000 20 (ex_sock 100 10) 100
          (ex_empty\<lparr>flows := (flows ex_empty)(inet_tuple ex_inet1 \<mapsto>
              \<lparr>tuple = inet_tuple ex_inet1, tstamp = 0, cumulative_bytes = 100,
               last_seq_num = 100, first_seq_num = 100\<rparr>), flow_count := flow_count ex_empty + 1\<rparr>)"
    using rcv_created [of ex_cfg "ex_event ex_inet1 100 10 0" ex_empty] by simp
  moreover have "retained ex_cfg ex_ring = []"
    by (simp add: retained_def tcp_probe_used_def)
  ultimately show ?thesis
    using ex_ring_ok by (simp add: write_flow_retained)
qed

text \<open>
  C3, as amended. A first observation of an identity that is not in the table, that passes
  the port filter and the window gate with the table lock acquired and is not rejected by
  admission, creates the flow state, records \<^verbatim>\<open>first_seq_num\<close> and the timestamp, counts
  the observed sequence number as the flow's cumulative bytes, and hands one record for the
  event to \<^verbatim>\<open>write_flow\<close> (lines 376 and 387-406 set and test \<^verbatim>\<open>should_write_flow\<close>).
\<close>

theorem C3_first_observation_creates_and_writes:
  assumes "port_matches cfg (inet_tuple (inet ev))"
    and "full cfg \<or> snd_cwnd (sk ev) \<noteq> lastcwnd (tcp_probe s)"
    and "\<not> tcp_hash_lock s"
    and "flows s (inet_tuple (inet ev)) = None"
    and "\<not> (0 < maxflows cfg \<and> maxflows cfg \<le> flow_count s)"
  shows "jtcp_rcv_established cfg ev s
       = write_flow cfg (inet_tuple (inet ev)) (sk ev) (ktime_get ev) (ucast (snd_nxt (sk ev)))
           (ucast (skb_len ev)) (tcp_current_ssthresh (sk ev)) (sk ev) (ucast (snd_nxt (sk ev)))
           (s\<lparr>flows := (flows s)(inet_tuple (inet ev) \<mapsto>
                  \<lparr>tuple = inet_tuple (inet ev), tstamp = ktime_get ev,
                   cumulative_bytes = ucast (snd_nxt (sk ev)), last_seq_num = snd_nxt (sk ev),
                   first_seq_num = ucast (snd_nxt (sk ev))\<rparr>),
               flow_count := flow_count s + 1\<rparr>)"
  using assms by (rule rcv_created)

text \<open>The amended C3 at the first observation above.\<close>

theorem C3_first_observation_creates_and_writes_witness:
  "port_matches ex_cfg (inet_tuple ex_inet1) \<and> flows ex_empty (inet_tuple ex_inet1) = None \<and>
   jtcp_rcv_established ex_cfg (ex_event ex_inet1 100 10 0) ex_empty
     = write_flow ex_cfg (inet_tuple ex_inet1) (ex_sock 100 10) 0 100 1000 20 (ex_sock 100 10) 100
         (ex_empty\<lparr>flows := [inet_tuple ex_inet1 \<mapsto>
             \<lparr>tuple = inet_tuple ex_inet1, tstamp = 0, cumulative_bytes = 100,
              last_seq_num = 100, first_seq_num = 100\<rparr>], flow_count := 1\<rparr>)"
  using C3_first_observation_creates_and_writes [of ex_cfg "ex_event ex_inet1 100 10 0" ex_empty]
  by (simp add: ex_empty_def)

text \<open>
  C4. A close event that passes the port filter, on an identity in the table, counts a reset
  flow, hands exactly one record with the length \<^verbatim>\<open>UINT16_MAX\<close> and the updated cumulative
  bytes to \<^verbatim>\<open>write_flow\<close>, and removes the flow from the table and from the flow counter;
  neither \<^verbatim>\<open>full\<close>, \<^verbatim>\<open>lastcwnd\<close> nor \<^verbatim>\<open>probetime\<close> is consulted. Where the ring has more
  than one slot available, the ring's contents grow by exactly that record. A close event
  for an identity that is not in the table leaves the state as it is. (The handler takes
  the table lock with \<^verbatim>\<open>spin_lock\<close>, so it runs once the lock is free.)
\<close>

theorem C4_close_writes_terminal_and_removes:
  assumes "port_matches cfg (inet_tuple (inet ev))" and "\<not> tcp_hash_lock s"
  shows "(flows s (inet_tuple (inet ev)) = None \<longrightarrow> jtcp_done cfg ev s = Some s) \<and>
         (flows s (inet_tuple (inet ev)) = Some f \<longrightarrow>
            jtcp_done cfg ev s
              = Some ((write_flow cfg (inet_tuple (inet ev)) (sk ev) (ktime_get ev)
                         (cumulative_bytes (update_cumulative_bytes (snd_nxt (sk ev)) f))
                         UINT16_MAX (tcp_current_ssthresh (sk ev)) (sk ev) (first_seq_num f)
                         (s\<lparr>stat := (stat s)\<lparr>reset_flows := reset_flows (stat s) + 1\<rparr>\<rparr>))
                      \<lparr>flows := (flows s)(inet_tuple (inet ev) := None),
                       flow_count := flow_count s - 1\<rparr>)) \<and>
         (flows s (inet_tuple (inet ev)) = Some f \<and> ring_ok cfg (tcp_probe s) \<and>
          1 < tcp_probe_avail cfg (tcp_probe s) \<longrightarrow>
            map_option (\<lambda>s'. retained cfg (tcp_probe s')) (jtcp_done cfg ev s)
              = Some (retained cfg (tcp_probe s) @
                  [flow_record (inet_tuple (inet ev)) (sk ev) (ktime_get ev)
                     (cumulative_bytes (update_cumulative_bytes (snd_nxt (sk ev)) f))
                     UINT16_MAX (tcp_current_ssthresh (sk ev)) (sk ev) (first_seq_num f)]))"
proof (intro conjI impI)
  assume "flows s (inet_tuple (inet ev)) = None"
  then show "jtcp_done cfg ev s = Some s"
    using assms by (simp add: done_absent)
next
  assume "flows s (inet_tuple (inet ev)) = Some f"
  then show "jtcp_done cfg ev s
      = Some ((write_flow cfg (inet_tuple (inet ev)) (sk ev) (ktime_get ev)
                 (cumulative_bytes (update_cumulative_bytes (snd_nxt (sk ev)) f))
                 UINT16_MAX (tcp_current_ssthresh (sk ev)) (sk ev) (first_seq_num f)
                 (s\<lparr>stat := (stat s)\<lparr>reset_flows := reset_flows (stat s) + 1\<rparr>\<rparr>))
              \<lparr>flows := (flows s)(inet_tuple (inet ev) := None),
               flow_count := flow_count s - 1\<rparr>)"
    using assms by (simp add: done_tracked)
next
  assume a: "flows s (inet_tuple (inet ev)) = Some f \<and> ring_ok cfg (tcp_probe s) \<and>
          1 < tcp_probe_avail cfg (tcp_probe s)"
  let ?s1 = "s\<lparr>stat := (stat s)\<lparr>reset_flows := reset_flows (stat s) + 1\<rparr>\<rparr>"
  have "ring_ok cfg (tcp_probe ?s1)" "1 < tcp_probe_avail cfg (tcp_probe ?s1)"
    using a by simp_all
  then have "retained cfg (tcp_probe (write_flow cfg (inet_tuple (inet ev)) (sk ev) (ktime_get ev)
                 (cumulative_bytes (update_cumulative_bytes (snd_nxt (sk ev)) f))
                 UINT16_MAX (tcp_current_ssthresh (sk ev)) (sk ev) (first_seq_num f) ?s1))
      = retained cfg (tcp_probe ?s1) @
          [flow_record (inet_tuple (inet ev)) (sk ev) (ktime_get ev)
             (cumulative_bytes (update_cumulative_bytes (snd_nxt (sk ev)) f))
             UINT16_MAX (tcp_current_ssthresh (sk ev)) (sk ev) (first_seq_num f)]"
    by (rule write_flow_retained)
  then show "map_option (\<lambda>s'. retained cfg (tcp_probe s')) (jtcp_done cfg ev s)
      = Some (retained cfg (tcp_probe s) @
          [flow_record (inet_tuple (inet ev)) (sk ev) (ktime_get ev)
             (cumulative_bytes (update_cumulative_bytes (snd_nxt (sk ev)) f))
             UINT16_MAX (tcp_current_ssthresh (sk ev)) (sk ev) (first_seq_num f)])"
    using a assms by (simp add: done_tracked)
qed

text \<open>
  C4 at a tracked flow whose window equals \<^verbatim>\<open>lastcwnd\<close>, closed one millisecond after its
  timestamp: one record with length \<open>0xFFFF\<close> and 5000 cumulative bytes, and the flow is
  gone; a close event for another identity changes nothing.
\<close>

theorem C4_close_writes_terminal_and_removes_witness:
  "map_option (\<lambda>s'. (map p_length (retained ex_cfg (tcp_probe s')),
                      map p_snd_nxt (retained ex_cfg (tcp_probe s')),
                      flows s' (inet_tuple ex_inet1), flow_count s'))
     (jtcp_done ex_cfg (ex_event ex_inet1 5100 0 1000000) (ex_tracking 5000 5100))
     = Some ([0xFFFF], [5000], None, 0) \<and>
   jtcp_done ex_cfg (ex_event ex_inet2 7 0 1000000) (ex_tracking 5000 5100)
     = Some (ex_tracking 5000 5100)"
proof -
  let ?s = "ex_tracking 5000 5100"
  let ?ev1 = "ex_event ex_inet1 5100 0 1000000" and ?ev2 = "ex_event ex_inet2 7 0 1000000"
  have u: "update_cumulative_bytes 5100 (ex_flow 5000 5100) = ex_flow 5000 5100"
    by (simp add: update_cumulative_bytes_def ex_flow_def)
  have p: "port_matches ex_cfg (inet_tuple (inet ?ev1))" "port_matches ex_cfg (inet_tuple (inet ?ev2))"
    and l: "\<not> tcp_hash_lock ?s"
    by simp_all
  note found = C4_close_writes_terminal_and_removes [OF p(1) l, where f = "ex_flow 5000 5100"]
  note absent = C4_close_writes_terminal_and_removes [OF p(2) l, where f = "ex_flow 5000 5100"]
  have a: "jtcp_done ex_cfg ?ev2 ?s = Some ?s"
    by (rule absent [THEN conjunct1, rule_format]) simp
  have "jtcp_done ex_cfg ?ev1 ?s
      = Some ((write_flow ex_cfg (inet_tuple (inet ?ev1)) (sk ?ev1) (ktime_get ?ev1)
                 (cumulative_bytes (update_cumulative_bytes (snd_nxt (sk ?ev1)) (ex_flow 5000 5100)))
                 UINT16_MAX (tcp_current_ssthresh (sk ?ev1)) (sk ?ev1)
                 (first_seq_num (ex_flow 5000 5100))
                 (?s\<lparr>stat := (stat ?s)\<lparr>reset_flows := reset_flows (stat ?s) + 1\<rparr>\<rparr>))
              \<lparr>flows := (flows ?s)(inet_tuple (inet ?ev1) := None),
               flow_count := flow_count ?s - 1\<rparr>)"
    by (rule found [THEN conjunct2, THEN conjunct1, rule_format]) simp
  then obtain s' where s': "jtcp_done ex_cfg ?ev1 ?s = Some s'"
    and fl: "flows s' (inet_tuple ex_inet1) = None" and fc: "flow_count s' = 0"
    by simp
  have "map_option (\<lambda>s'. retained ex_cfg (tcp_probe s')) (jtcp_done ex_cfg ?ev1 ?s)
      = Some (retained ex_cfg (tcp_probe ?s) @
          [flow_record (inet_tuple (inet ?ev1)) (sk ?ev1) (ktime_get ?ev1)
             (cumulative_bytes (update_cumulative_bytes (snd_nxt (sk ?ev1)) (ex_flow 5000 5100)))
             UINT16_MAX (tcp_current_ssthresh (sk ?ev1)) (sk ?ev1)
             (first_seq_num (ex_flow 5000 5100))])"
    by (rule found [THEN conjunct2, THEN conjunct2, rule_format]) (simp add: ex_ring_ok)
  then have r: "retained ex_cfg (tcp_probe s')
      = [flow_record (inet_tuple ex_inet1) (ex_sock 5100 0) 1000000 5000 UINT16_MAX 20
           (ex_sock 5100 0) 100]"
    by (simp add: s' u)
  show ?thesis
    using a by (simp add: s' r fl fc UINT16_MAX_def)
qed

text \<open>
  C5, counterexample. Five pushes into an empty ring of capacity four: three records are
  retained, not four, and two drops are counted, not one.
\<close>

theorem C5_four_slots_keep_three:
  "length (retained ex_cfg (tcp_probe (pushes ex_cfg ex_empty (map ex_write [1, 2, 3, 4, 5])))) = 3 \<and>
   map p_snd_nxt (retained ex_cfg (tcp_probe (pushes ex_cfg ex_empty (map ex_write [1, 2, 3, 4, 5]))))
     = [1, 2, 3] \<and>
   ack_drop_ring_full (stat (pushes ex_cfg ex_empty (map ex_write [1, 2, 3, 4, 5]))) = 2"
proof -
  have ok: "ring_ok ex_cfg (tcp_probe ex_empty)" using ex_ring_ok by simp
  have u: "tcp_probe_used ex_cfg ex_ring = 0" by (simp add: tcp_probe_used_def)
  show ?thesis
    using pushes_retained [OF ok, of "map ex_write [1, 2, 3, 4, 5]"]
    by (simp add: u pushed_record_def ex_write_def ex_stat_def)
qed

text \<open>
  C5, as amended. A sequence of \<open>N\<close> pushes into an empty ring of capacity \<open>C\<close> with no
  drain retains the earliest \<open>C - 1\<close> records pushed (all of them when \<open>N < C\<close>), in push
  order, and the ring-full counter grows by \<open>N - (C - 1)\<close>. A push is refused exactly
  when fewer than 2 slots are available: then the ring's array and indices stay as they are
  and the drop is counted; otherwise the record is stored at \<^verbatim>\<open>head\<close> and nothing is
  counted.
\<close>

theorem C5_ring_keeps_earliest:
  assumes "ring_ok cfg (tcp_probe s)" and "head (tcp_probe s) = tail (tcp_probe s)"
  shows "retained cfg (tcp_probe (pushes cfg s ws)) = map pushed_record (take (bufsize cfg - 1) ws) \<and>
         ack_drop_ring_full (stat (pushes cfg s ws))
           = ack_drop_ring_full (stat s) + (length ws - (bufsize cfg - 1)) \<and>
         (tcp_probe_avail cfg (tcp_probe s') < 2 \<longrightarrow>
            tcp_probe (push cfg s' a) = (tcp_probe s')\<lparr>lastcwnd := snd_cwnd (w_tp a)\<rparr> \<and>
            ack_drop_ring_full (stat (push cfg s' a)) = ack_drop_ring_full (stat s') + 1) \<and>
         (2 \<le> tcp_probe_avail cfg (tcp_probe s') \<longrightarrow>
            log (tcp_probe (push cfg s' a))
              = (log (tcp_probe s'))[head (tcp_probe s') := pushed_record a] \<and>
            stat (push cfg s' a) = stat s')"
proof -
  have u: "tcp_probe_used cfg (tcp_probe s) = 0"
    using assms(2) by (simp add: tcp_probe_used_def)
  then have r: "retained cfg (tcp_probe s) = []"
    by (simp add: retained_def)
  have seq: "retained cfg (tcp_probe (pushes cfg s ws)) = map pushed_record (take (bufsize cfg - 1) ws)"
    "ack_drop_ring_full (stat (pushes cfg s ws))
           = ack_drop_ring_full (stat s) + (length ws - (bufsize cfg - 1))"
    using pushes_retained [OF assms(1), of ws] by (simp_all add: u r take_map)
  have one: "tcp_probe_avail cfg (tcp_probe s') < 2 \<longrightarrow>
            tcp_probe (push cfg s' a) = (tcp_probe s')\<lparr>lastcwnd := snd_cwnd (w_tp a)\<rparr> \<and>
            ack_drop_ring_full (stat (push cfg s' a)) = ack_drop_ring_full (stat s') + 1"
    by (simp add: push_def tcp_probe_write_flow stat_write_flow)
  have two: "2 \<le> tcp_probe_avail cfg (tcp_probe s') \<longrightarrow>
            log (tcp_probe (push cfg s' a))
              = (log (tcp_probe s'))[head (tcp_probe s') := pushed_record a] \<and>
            stat (push cfg s' a) = stat s'"
    by (simp add: push_def tcp_probe_write_flow stat_write_flow pushed_record_def)
  show ?thesis using seq one two by blast
qed

text \<open>The amended C5 at five pushes into four slots, and at a push that is refused.\<close>

theorem C5_ring_keeps_earliest_witness:
  "ring_ok ex_cfg (tcp_probe ex_empty) \<and> head (tcp_probe ex_empty) = tail (tcp_probe ex_empty) \<and>
   retained ex_cfg (tcp_probe (pushes ex_cfg ex_empty (map ex_write [1, 2, 3, 4, 5])))
     = [pushed_record (ex_write 1), pushed_record (ex_write 2), pushed_record (ex_write 3)] \<and>
   ack_drop_ring_full (stat (pushes ex_cfg ex_empty (map ex_write [1, 2, 3, 4, 5]))) = 2 \<and>
   tcp_probe_avail ex_cfg ex_full_ring < 2 \<and>
   tcp_probe (push ex_cfg (ex_empty\<lparr>tcp_probe := ex_full_ring\<rparr>) (ex_write 9))
     = ex_full_ring\<lparr>lastcwnd := 10\<rparr> \<and>
   ack_drop_ring_full (stat (push ex_cfg (ex_empty\<lparr>tcp_probe := ex_full_ring\<rparr>) (ex_write 9))) = 1"
proof -
  have ok: "ring_ok ex_cfg (tcp_probe ex_empty)" using ex_ring_ok by simp
  have e: "head (tcp_probe ex_empty) = tail (tcp_probe ex_empty)" by simp
  show ?thesis
    using C5_ring_keeps_earliest [OF ok e, of "map ex_write [1, 2, 3, 4, 5]"
        "ex_empty\<lparr>tcp_probe := ex_full_ring\<rparr>" "ex_write 9"] ok
    by (simp add: ex_stat_def ex_write_def)
qed



text \<open>
  C7, counterexample. A close event while the table lock is held: \<^verbatim>\<open>jtcp_done\<close> does not
  return with the event skipped and the contention counter incremented; it is still in
  \<^verbatim>\<open>spin_lock\<close>.
\<close>

theorem C7_close_handler_waits:
  "jtcp_done ex_cfg (ex_event ex_inet1 5100 10 50000000) ((ex_tracking 0 100)\<lparr>tcp_hash_lock := True\<rparr>)
     = None \<and>
   jtcp_done ex_cfg (ex_event ex_inet1 5100 10 50000000) ((ex_tracking 0 100)\<lparr>tcp_hash_lock := True\<rparr>)
     \<noteq> Some ((ex_tracking 0 100)
               \<lparr>tcp_hash_lock := True, stat := ex_stat\<lparr>ack_drop_purge := 1\<rparr>\<rparr>)"
  by (simp add: done_locked)

text \<open>
  C7, as amended. While the table lock is held, an observation that passes the port filter
  and the window gate is skipped by \<^verbatim>\<open>jtcp_rcv_established\<close> (\<^verbatim>\<open>spin_trylock\<close>): the
  contention counter goes up by one, and the table, the ring and every other counter are
  unchanged. The close handler \<^verbatim>\<open>jtcp_done\<close> takes the lock with the blocking
  \<^verbatim>\<open>spin_lock\<close>: it waits for the lock, skips nothing and counts nothing.
\<close>

theorem C7_contention_skip_and_wait:
  assumes "tcp_hash_lock s" and "port_matches cfg (inet_tuple (inet ev))"
  shows "(full cfg \<or> snd_cwnd (sk ev) \<noteq> lastcwnd (tcp_probe s) \<longrightarrow>
            jtcp_rcv_established cfg ev s
              = s\<lparr>stat := (stat s)\<lparr>ack_drop_purge := ack_drop_purge (stat s) + 1\<rparr>\<rparr>) \<and>
         jtcp_done cfg ev s = None"
  using assms by (simp add: rcv_locked done_locked)

text \<open>The amended C7 at a tracked flow with the lock held.\<close>

theorem C7_contention_skip_and_wait_witness:
  "jtcp_rcv_established ex_cfg (ex_event ex_inet1 5100 10 50000000)
     ((ex_tracking 0 100)\<lparr>tcp_hash_lock := True\<rparr>)
     = (ex_tracking 0 100)\<lparr>tcp_hash_lock := True, stat := ex_stat\<lparr>ack_drop_purge := 1\<rparr>\<rparr> \<and>
   jtcp_done ex_cfg (ex_event ex_inet1 5100 10 50000000) ((ex_tracking 0 100)\<lparr>tcp_hash_lock := True\<rparr>)
     = None"
  using C7_contention_skip_and_wait
    [of "(ex_tracking 0 100)\<lparr>tcp_hash_lock := True\<rparr>" ex_cfg "ex_event ex_inet1 5100 10 50000000"]
  by (simp add: ex_stat_def)

text \<open>
  C8, counterexample. The counter is 64 bits wide. A flow whose counter is \<open>2^64 - 1\<close> and
  whose sequence number is 0 is observed at sequence number 1: the counter becomes 0. A
  fresh flow reaches that counter after 4294967297 rounds of the observations
  \<open>0xFFFFFFFF, 0\<close>, so the decrease happens within one flow's life.
\<close>

theorem C8_counter_wraps_at_64_bits:
  "flows (ex_tracking 0xFFFFFFFFFFFFFFFF 0) (inet_tuple ex_inet1)
     = Some \<lparr>tuple = inet_tuple ex_inet1, tstamp = 0, cumulative_bytes = 0xFFFFFFFFFFFFFFFF,
             last_seq_num = 0, first_seq_num = 100\<rparr> \<and>
   flows (jtcp_rcv_established ex_cfg (ex_event ex_inet1 1 10 20000000)
            (ex_tracking 0xFFFFFFFFFFFFFFFF 0)) (inet_tuple ex_inet1)
     = Some \<lparr>tuple = inet_tuple ex_inet1, tstamp = 20000000, cumulative_bytes = 0,
             last_seq_num = 1, first_seq_num = 100\<rparr> \<and>
   cumulative_bytes (observe_all (concat (replicate 4294967297 [0xFFFFFFFF, 0]))
      (new_tcp_hash_flow (inet_tuple ex_inet1) 0)) = 0xFFFFFFFFFFFFFFFF \<and>
   cumulative_bytes (observe_all (concat (replicate 4294967297 [0xFFFFFFFF, 0]) @ [1])
      (new_tcp_hash_flow (inet_tuple ex_inet1) 0)) = 0"
proof -
  have u: "update_cumulative_bytes 1 (ex_flow 0xFFFFFFFFFFFFFFFF 0) = ex_flow 0 1"
    by (simp add: update_cumulative_bytes_def ex_flow_def)
  have "jtcp_rcv_established ex_cfg (ex_event ex_inet1 1 10 20000000) (ex_tracking 0xFFFFFFFFFFFFFFFF 0)
      = write_flow ex_cfg (inet_tuple ex_inet1) (ex_sock 1 10) 20000000 0 1000 20 (ex_sock 1 10) 100
          ((ex_tracking 0xFFFFFFFFFFFFFFFF 0)
             \<lparr>flows := (flows (ex_tracking 0xFFFFFFFFFFFFFFFF 0))
                 (inet_tuple ex_inet1 \<mapsto> (ex_flow 0 1)\<lparr>tstamp := 20000000\<rparr>)\<rparr>)"
    using rcv_written [of ex_cfg "ex_event ex_inet1 1 10 20000000"
        "ex_tracking 0xFFFFFFFFFFFFFFFF 0" "ex_flow 0xFFFFFFFFFFFFFFFF 0"]
    by (simp add: ex_ms u)
  then have step: "flows (jtcp_rcv_established ex_cfg (ex_event ex_inet1 1 10 20000000)
            (ex_tracking 0xFFFFFFFFFFFFFFFF 0)) (inet_tuple ex_inet1)
     = Some \<lparr>tuple = inet_tuple ex_inet1, tstamp = 20000000, cumulative_bytes = 0,
             last_seq_num = 1, first_seq_num = 100\<rparr>"
    by (simp add: ex_flow_def)
  have "observe_all (concat (replicate 4294967297 [0xFFFFFFFF, 0]) @ [1])
          (new_tcp_hash_flow (inet_tuple ex_inet1) 0)
      = update_cumulative_bytes 1 (observe_all (concat (replicate 4294967297 [0xFFFFFFFF, 0]))
          (new_tcp_hash_flow (inet_tuple ex_inet1) 0))"
    by (simp add: observe_all_def)
  then show ?thesis
    using step wrap_reachable [of "inet_tuple ex_inet1" 0] by (simp add: ex_flow_def)
qed

text \<open>
  C8, as amended. As long as the 64-bit counter is at most \<open>2^64 - 2^32\<close> before an update,
  no update decreases it: neither the update itself, nor \<^verbatim>\<open>jtcp_rcv_established\<close> on any
  flow that is in the table before and after it, nor \<^verbatim>\<open>jtcp_done\<close>.
\<close>

theorem C8_cumulative_bytes_monotone_below_wrap:
  assumes "flows s k = Some f" and "unat (cumulative_bytes f) + 2 ^ 32 \<le> 2 ^ 64"
  shows "cumulative_bytes f \<le> cumulative_bytes (update_cumulative_bytes nxt f) \<and>
         (\<forall>f'. flows (jtcp_rcv_established cfg ev s) k = Some f' \<longrightarrow>
                cumulative_bytes f \<le> cumulative_bytes f') \<and>
         (\<forall>s' f'. jtcp_done cfg ev s = Some s' \<and> flows s' k = Some f' \<longrightarrow>
                cumulative_bytes f \<le> cumulative_bytes f')"
proof (intro conjI allI impI)
  show "cumulative_bytes f \<le> cumulative_bytes (update_cumulative_bytes nxt f)"
    using assms(2) by (rule update_cumulative_bytes_mono)
next
  fix f'
  assume "flows (jtcp_rcv_established cfg ev s) k = Some f'"
  then show "cumulative_bytes f \<le> cumulative_bytes f'"
    using rcv_flows_cases [of cfg ev s k] assms update_cumulative_bytes_mono [of f "snd_nxt (sk ev)"]
    by auto
next
  fix s' f'
  assume "jtcp_done cfg ev s = Some s' \<and> flows s' k = Some f'"
  then show "cumulative_bytes f \<le> cumulative_bytes f'"
    using done_flows_cases [of cfg ev s s' k] assms by auto
qed

text \<open>The amended C8 at a flow that goes from 0 to 5000 bytes.\<close>

theorem C8_cumulative_bytes_monotone_below_wrap_witness:
  "flows (ex_tracking 0 100) (inet_tuple ex_inet1) = Some (ex_flow 0 100) \<and>
   unat (cumulative_bytes (ex_flow 0 100)) + 2 ^ 32 \<le> (2 ^ 64 :: nat) \<and>
   cumulative_bytes (ex_flow 0 100) \<le> cumulative_bytes (update_cumulative_bytes 5100 (ex_flow 0 100)) \<and>
   cumulative_bytes (update_cumulative_bytes 5100 (ex_flow 0 100)) = 5000 \<and>
   flows (jtcp_rcv_established ex_cfg (ex_event ex_inet1 5100 10 50000000) (ex_tracking 0 100))
       (inet_tuple ex_inet1) = Some ((ex_flow 5000 5100)\<lparr>tstamp := 50000000\<rparr>) \<and>
   cumulative_bytes (ex_flow 0 100)
     \<le> cumulative_bytes ((ex_flow 5000 5100)\<lparr>tstamp := 50000000\<rparr>)"
proof -
  have h: "flows (ex_tracking 0 100) (inet_tuple ex_inet1) = Some (ex_flow 0 100)"
    "unat (cumulative_bytes (ex_flow 0 100)) + 2 ^ 32 \<le> (2 ^ 64 :: nat)"
    by simp_all
  have u: "update_cumulative_bytes 5100 (ex_flow 0 100) = ex_flow 5000 5100"
    by (simp add: update_cumulative_bytes_def ex_flow_def)
  have ms: "milliseconds 50000000 0 = 50"
    by (simp add: milliseconds_nonneg)
  have "jtcp_rcv_established ex_cfg (ex_event ex_inet1 5100 10 50000000) (ex_tracking 0 100)
      = write_flow ex_cfg (inet_tuple ex_inet1) (ex_sock 5100 10) 50000000 5000 1000 20
          (ex_sock 5100 10) 100
          ((ex_tracking 0 100)\<lparr>flows := (flows (ex_tracking 0 100))
              (inet_tuple ex_inet1 \<mapsto> (ex_flow 5000 5100)\<lparr>tstamp := 50000000\<rparr>)\<rparr>)"
    using rcv_written [of ex_cfg "ex_event ex_inet1 5100 10 50000000" "ex_tracking 0 100"
        "ex_flow 0 100"]
    by (simp add: ms u)
  then have after: "flows (jtcp_rcv_established ex_cfg (ex_event ex_inet1 5100 10 50000000)
      (ex_tracking 0 100)) (inet_tuple ex_inet1) = Some ((ex_flow 5000 5100)\<lparr>tstamp := 50000000\<rparr>)"
    by simp
  note mono = C8_cumulative_bytes_monotone_below_wrap
    [OF h, of 5100 ex_cfg "ex_event ex_inet1 5100 10 50000000"]
  have "cumulative_bytes (ex_flow 0 100)
     \<le> cumulative_bytes ((ex_flow 5000 5100)\<lparr>tstamp := 50000000\<rparr>)"
    using mono [THEN conjunct2, THEN conjunct1, rule_format, OF after] .
  then show ?thesis
    using mono [THEN conjunct1] h after by (simp add: u)
qed

text \<open>
  C9, counterexample. The first flow is created at time 0 with window 10, and that record is
  written. With a minimum interval of 10 ms, an observation of the flow at 9 ms with window
  12 changes nothing, and an observation at 11 ms with the same window 12, two milliseconds
  after the other, is written. Again from the created flow: an observation at 100 ms with
  window 10 is discarded; a second flow is created at 101 ms with window 20; the first flow's
  observation at 102 ms, with the window 10 of its own last record, is written.
\<close>

theorem C9_same_window_is_written:
  "map p_snd_cwnd (retained ex_cfg (tcp_probe ex_created)) = [10] \<and>
   jtcp_rcv_established ex_cfg (ex_event ex_inet1 200 12 9000000) ex_created = ex_created \<and>
   map p_tstamp (retained ex_cfg (tcp_probe
      (jtcp_rcv_established ex_cfg (ex_event ex_inet1 300 12 11000000)
         (jtcp_rcv_established ex_cfg (ex_event ex_inet1 200 12 9000000) ex_created))))
     = [0, 11000000] \<and>
   jtcp_rcv_established ex_cfg (ex_event ex_inet1 200 10 100000000) ex_created = ex_created \<and>
   map p_snd_cwnd (retained ex_cfg (tcp_probe
      (jtcp_rcv_established ex_cfg (ex_event ex_inet1 300 10 102000000)
         (jtcp_rcv_established ex_cfg (ex_event ex_inet2 50 20 101000000)
            (jtcp_rcv_established ex_cfg (ex_event ex_inet1 200 10 100000000) ex_created)))))
     = [10, 20, 10]"
proof -
  have ms: "milliseconds 9000000 0 = 9" "milliseconds 11000000 0 = 11"
    "milliseconds 102000000 0 = 102"
    by (simp_all add: milliseconds_nonneg)
  have first: "map p_snd_cwnd (retained ex_cfg (tcp_probe ex_created)) = [10]"
    by (simp add: ex_created_ring)
  have early: "jtcp_rcv_established ex_cfg (ex_event ex_inet1 200 12 9000000) ex_created
      = ex_created"
    by (rule rcv_not_written [where f = "ex_flow 100 100"]) (simp_all add: ms)
  have "jtcp_rcv_established ex_cfg (ex_event ex_inet1 300 12 11000000) ex_created
      = write_flow ex_cfg (inet_tuple ex_inet1) (ex_sock 300 12) 11000000
          (cumulative_bytes (update_cumulative_bytes 300 (ex_flow 100 100))) 1000 20
          (ex_sock 300 12) 100
          (ex_created\<lparr>flows := (flows ex_created)(inet_tuple ex_inet1 \<mapsto>
              (update_cumulative_bytes 300 (ex_flow 100 100))\<lparr>tstamp := 11000000\<rparr>)\<rparr>)"
    using rcv_written [of ex_cfg "ex_event ex_inet1 300 12 11000000" ex_created "ex_flow 100 100"]
    by (simp add: ms)
  then have late: "map p_tstamp (retained ex_cfg (tcp_probe
      (jtcp_rcv_established ex_cfg (ex_event ex_inet1 300 12 11000000) ex_created)))
     = [0, 11000000]"
    by (simp add: write_flow_retained ex_created_ring)
  have gated: "jtcp_rcv_established ex_cfg (ex_event ex_inet1 200 10 100000000) ex_created
      = ex_created"
    by (rule rcv_gate_closed) simp
  define s3 where "s3 = jtcp_rcv_established ex_cfg (ex_event ex_inet2 50 20 101000000) ex_created"
  have s3: "s3 = write_flow ex_cfg (inet_tuple ex_inet2) (ex_sock 50 20) 101000000 50 1000 20
          (ex_sock 50 20) 50
          (ex_created\<lparr>flows := (flows ex_created)(inet_tuple ex_inet2 \<mapsto>
             \<lparr>tuple = inet_tuple ex_inet2, tstamp = 101000000, cumulative_bytes = 50,
              last_seq_num = 50, first_seq_num = 50\<rparr>), flow_count := flow_count ex_created + 1\<rparr>)"
    unfolding s3_def
    using rcv_created [of ex_cfg "ex_event ex_inet2 50 20 101000000" ex_created] by simp
  have s3_flow: "flows s3 (inet_tuple ex_inet1) = Some (ex_flow 100 100)"
    and s3_lock: "\<not> tcp_hash_lock s3" and s3_cwnd: "lastcwnd (tcp_probe s3) = 20"
    unfolding s3 by simp_all
  have s3_ring: "ring_ok ex_cfg (tcp_probe s3)" "tcp_probe_avail ex_cfg (tcp_probe s3) = 2"
    "map p_snd_cwnd (retained ex_cfg (tcp_probe s3)) = [10, 20]"
    unfolding s3
    by (simp_all add: write_flow_ring_ok write_flow_avail write_flow_retained ex_created_ring)
  have "jtcp_rcv_established ex_cfg (ex_event ex_inet1 300 10 102000000) s3
      = write_flow ex_cfg (inet_tuple ex_inet1) (ex_sock 300 10) 102000000
          (cumulative_bytes (update_cumulative_bytes 300 (ex_flow 100 100))) 1000 20
          (ex_sock 300 10) 100
          (s3\<lparr>flows := (flows s3)(inet_tuple ex_inet1 \<mapsto>
              (update_cumulative_bytes 300 (ex_flow 100 100))\<lparr>tstamp := 102000000\<rparr>)\<rparr>)"
    using rcv_written [of ex_cfg "ex_event ex_inet1 300 10 102000000" s3 "ex_flow 100 100"]
      s3_flow s3_lock s3_cwnd
    by (simp add: ms)
  then have other: "map p_snd_cwnd (retained ex_cfg (tcp_probe
      (jtcp_rcv_established ex_cfg (ex_event ex_inet1 300 10 102000000) s3))) = [10, 20, 10]"
    using s3_ring by (simp add: write_flow_retained)
  show ?thesis
    using first early late gated other unfolding s3_def by simp
qed

text \<open>
  C9, as amended. With full-capture mode off, an observation of a tracked flow hands a
  record to the ring only if its congestion window differs from \<^verbatim>\<open>lastcwnd\<close>, the window
  of the last record handed to \<^verbatim>\<open>write_flow\<close> for any flow, and at least \<^verbatim>\<open>probetime\<close>
  milliseconds have passed since the flow's timestamp, the time of the flow's last record:
  if the window equals \<^verbatim>\<open>lastcwnd\<close>, or the observation comes less than \<^verbatim>\<open>probetime\<close>
  milliseconds after that record, then the ring, \<^verbatim>\<open>lastcwnd\<close>, the table and the
  ring-full counter are all as before.
\<close>

theorem C9_gates_block_emission:
  assumes "\<not> full cfg"
    and "flows s (inet_tuple (inet ev)) = Some f"
    and "snd_cwnd (sk ev) = lastcwnd (tcp_probe s) \<or>
         (tstamp f \<le> ktime_get ev \<and> ktime_get ev - tstamp f < int (probetime cfg) * NSEC_PER_MSEC)"
  shows "tcp_probe (jtcp_rcv_established cfg ev s) = tcp_probe s \<and>
         flows (jtcp_rcv_established cfg ev s) = flows s \<and>
         ack_drop_ring_full (stat (jtcp_rcv_established cfg ev s)) = ack_drop_ring_full (stat s)"
proof (cases "port_matches cfg (inet_tuple (inet ev)) \<and> snd_cwnd (sk ev) \<noteq> lastcwnd (tcp_probe s)")
  case False
  then have "jtcp_rcv_established cfg ev s = s"
    using assms(1) by (intro rcv_gate_closed) simp
  then show ?thesis by simp
next
  case True
  then have near: "tstamp f \<le> ktime_get ev"
    "ktime_get ev - tstamp f < int (probetime cfg) * NSEC_PER_MSEC"
    using assms(3) by simp_all
  have short: "\<not> probetime cfg \<le> unat (milliseconds (ktime_get ev) (tstamp f))"
    using milliseconds_less [OF near] by simp
  show ?thesis
  proof (cases "tcp_hash_lock s")
    case True
    with \<open>port_matches cfg (inet_tuple (inet ev)) \<and> snd_cwnd (sk ev) \<noteq> lastcwnd (tcp_probe s)\<close>
    show ?thesis by (simp add: rcv_locked)
  next
    case False
    with True assms(2) short have "jtcp_rcv_established cfg ev s = s"
      by (intro rcv_not_written [where f = f]) simp_all
    then show ?thesis by simp
  qed
qed

text \<open>
  C9 at two observations of one flow: the first, 50 ms after the flow's timestamp, is
  written; a second one with the same window 150 ms later, and a second one with another
  window less than 10 ms later, leave the ring as the first one left it.
\<close>

theorem C9_gates_block_emission_witness:
  "retained ex_cfg (tcp_probe (jtcp_rcv_established ex_cfg (ex_event ex_inet1 5100 10 50000000)
      (ex_tracking 0 100)))
     = [flow_record (inet_tuple ex_inet1) (ex_sock 5100 10) 50000000 5000 1000 20
          (ex_sock 5100 10) 100] \<and>
   tcp_probe (jtcp_rcv_established ex_cfg (ex_event ex_inet1 6100 10 200000000)
      (jtcp_rcv_established ex_cfg (ex_event ex_inet1 5100 10 50000000) (ex_tracking 0 100)))
     = tcp_probe (jtcp_rcv_established ex_cfg (ex_event ex_inet1 5100 10 50000000)
         (ex_tracking 0 100)) \<and>
   tcp_probe (jtcp_rcv_established ex_cfg (ex_event ex_inet1 6100 12 59999999)
      (jtcp_rcv_established ex_cfg (ex_event ex_inet1 5100 10 50000000) (ex_tracking 0 100)))
     = tcp_probe (jtcp_rcv_established ex_cfg (ex_event ex_inet1 5100 10 50000000)
         (ex_tracking 0 100))"
proof -
  define s1 where
    "s1 = jtcp_rcv_established ex_cfg (ex_event ex_inet1 5100 10 50000000) (ex_tracking 0 100)"
  have u: "update_cumulative_bytes 5100 (ex_flow 0 100) = ex_flow 5000 5100"
    by (simp add: update_cumulative_bytes_def ex_flow_def)
  have ms: "milliseconds 50000000 0 = 50"
    by (simp add: milliseconds_nonneg)
  have s1: "s1 = write_flow ex_cfg (inet_tuple ex_inet1) (ex_sock 5100 10) 50000000 5000 1000 20
          (ex_sock 5100 10) 100
          ((ex_tracking 0 100)\<lparr>flows := (flows (ex_tracking 0 100))
              (inet_tuple ex_inet1 \<mapsto> (ex_flow 5000 5100)\<lparr>tstamp := 50000000\<rparr>)\<rparr>)"
    unfolding s1_def
    using rcv_written [of ex_cfg "ex_event ex_inet1 5100 10 50000000" "ex_tracking 0 100"
        "ex_flow 0 100"]
    by (simp add: ms u)
  have written: "retained ex_cfg (tcp_probe s1)
     = [flow_record (inet_tuple ex_inet1) (ex_sock 5100 10) 50000000 5000 1000 20
          (ex_sock 5100 10) 100]"
    unfolding s1 using ex_ring_ok by (simp add: write_flow_retained)
  have f1: "flows s1 (inet_tuple ex_inet1) = Some ((ex_flow 5000 5100)\<lparr>tstamp := 50000000\<rparr>)"
    and c1: "lastcwnd (tcp_probe s1) = 10"
    unfolding s1 by simp_all
  have same_window: "tcp_probe (jtcp_rcv_established ex_cfg (ex_event ex_inet1 6100 10 200000000) s1)
      = tcp_probe s1"
    using C9_gates_block_emission
      [of ex_cfg s1 "ex_event ex_inet1 6100 10 200000000" "(ex_flow 5000 5100)\<lparr>tstamp := 50000000\<rparr>"]
      f1 c1
    by simp
  have too_soon: "tcp_probe (jtcp_rcv_established ex_cfg (ex_event ex_inet1 6100 12 59999999) s1)
      = tcp_probe s1"
    using C9_gates_block_emission
      [of ex_cfg s1 "ex_event ex_inet1 6100 12 59999999" "(ex_flow 5000 5100)\<lparr>tstamp := 50000000\<rparr>"]
      f1 c1
    by (simp add: NSEC_PER_MSEC_def)
  show ?thesis
    using written same_window too_soon unfolding s1_def by simp
qed

text \<open>
  C10. \<^verbatim>\<open>lastcwnd\<close> is one value for all flows. Every call of \<^verbatim>\<open>write_flow\<close> overwrites
  it with the congestion window of the socket it was called for, whether the record was
  stored or dropped; and with full-capture mode off, an observation of any flow with that
  same window is then discarded before the table is consulted.
\<close>

theorem C10_last_written_window_is_global:
  "lastcwnd (tcp_probe (write_flow cfg t tp ts c l ss sk_v fs s)) = snd_cwnd tp \<and>
   (\<not> full cfg \<and> snd_cwnd (sk ev) = snd_cwnd tp \<longrightarrow>
      jtcp_rcv_established cfg ev (write_flow cfg t tp ts c l ss sk_v fs s)
        = write_flow cfg t tp ts c l ss sk_v fs s)"
  by (simp add: rcv_gate_closed)

text \<open>
  C10 at a record of one flow that is dropped at a full ring, followed by an observation of
  another flow with the same window: the drop is counted, and the observation changes
  nothing.
\<close>

theorem C10_last_written_window_is_global_witness:
  "ack_drop_ring_full (stat (write_flow ex_cfg (inet_tuple ex_inet1) (ex_sock 5100 10) 0 5000 1000 20
      (ex_sock 5100 10) 100 (ex_empty\<lparr>tcp_probe := ex_full_ring\<rparr>))) = 1 \<and>
   retained ex_cfg (tcp_probe (write_flow ex_cfg (inet_tuple ex_inet1) (ex_sock 5100 10) 0 5000 1000 20
      (ex_sock 5100 10) 100 (ex_empty\<lparr>tcp_probe := ex_full_ring\<rparr>)))
     = retained ex_cfg ex_full_ring \<and>
   inet_tuple ex_inet2 \<noteq> inet_tuple ex_inet1 \<and>
   jtcp_rcv_established ex_cfg (ex_event ex_inet2 700 10 50000000)
      (write_flow ex_cfg (inet_tuple ex_inet1) (ex_sock 5100 10) 0 5000 1000 20
         (ex_sock 5100 10) 100 (ex_empty\<lparr>tcp_probe := ex_full_ring\<rparr>))
     = write_flow ex_cfg (inet_tuple ex_inet1) (ex_sock 5100 10) 0 5000 1000 20
         (ex_sock 5100 10) 100 (ex_empty\<lparr>tcp_probe := ex_full_ring\<rparr>)"
  using C10_last_written_window_is_global
    [of ex_cfg "inet_tuple ex_inet1" "ex_sock 5100 10" 0 5000 1000 20 "ex_sock 5100 10" 100
       "ex_empty\<lparr>tcp_probe := ex_full_ring\<rparr>" "ex_event ex_inet2 700 10 50000000"]
  by (simp add: write_flow_dropped ex_stat_def)

end
